theory Spec2Isabelle
  imports Main
begin

section \<open>Values shared by the attendance pipeline\<close>

text \<open>
  Every datetime of one run is built by \<^verbatim>\<open>datetime.combine(date, time, tzinfo=tz)\<close> with the same
  date and the same tzinfo object, so comparison and subtraction work on the wall-clock fields.
  A datetime is modelled as the number of seconds since local midnight of the run's date.
  Times parsed from \<^verbatim>\<open>"%H:%M"\<close> are whole minutes; the functions below accept any second.
\<close>

type_synonym datetime = int

datatype error = ValueError | KeyError | IndexError | UnboundLocalError

text \<open>A Python value stored in a report dictionary or a table cell: a string or an integer.\<close>

datatype pyval = S string | I int

text \<open>A Python dictionary with string keys, in insertion order.\<close>

type_synonym pydict = "(string \<times> pyval) list"

record employee =
  name :: string
  email :: string

subsection \<open>String helpers of the Python runtime\<close>

text \<open>
  A string is a list of characters with code points up to U+00FF, one \<^typ>\<open>char\<close> each.
  \<^verbatim>\<open>str.lower\<close> maps A to Z and the capital letters U+00C0 to U+00DE (U+00D7, the
  multiplication sign, is not a letter) to the letter 32 code points higher; \<^verbatim>\<open>str.strip\<close>
  removes the characters for which \<^verbatim>\<open>str.isspace\<close> holds: U+0009 to U+000D, U+001C to
  U+0020, U+0085 and U+00A0.
\<close>

definition lower_char :: "char \<Rightarrow> char" where
  "lower_char c =
     (case map_of (zip ''ABCDEFGHIJKLMNOPQRSTUVWXYZ'' ''abcdefghijklmnopqrstuvwxyz'') c of
        Some l \<Rightarrow> l
      | None \<Rightarrow>
          (let n = (of_char c :: nat) in
           if 192 \<le> n \<and> n \<le> 222 \<and> n \<noteq> 215 then char_of (n + 32) else c))"

definition lower :: "string \<Rightarrow> string" where
  "lower s = map lower_char s"

definition is_space :: "char \<Rightarrow> bool" where
  "is_space c =
     (let n = (of_char c :: nat) in
      (9 \<le> n \<and> n \<le> 13) \<or> (28 \<le> n \<and> n \<le> 32) \<or> n = 133 \<or> n = 160)"

definition strip :: "string \<Rightarrow> string" where
  "strip s = rev (dropWhile is_space (rev (dropWhile is_space s)))"

text \<open>\<^verbatim>\<open>email.lower().strip()\<close>\<close>

definition normalize_email :: "string \<Rightarrow> string" where
  "normalize_email e = strip (lower e)"

definition digit_char :: "nat \<Rightarrow> char" where
  "digit_char d = ''0123456789'' ! d"

fun str_nat :: "nat \<Rightarrow> string" where
  "str_nat n = (if n < 10 then [digit_char n] else str_nat (n div 10) @ [digit_char (n mod 10)])"

declare str_nat.simps [simp del]

text \<open>\<^verbatim>\<open>str(n)\<close> for an integer.\<close>

definition str_int :: "int \<Rightarrow> string" where
  "str_int i = (if i < 0 then CHR ''-'' # str_nat (nat (- i)) else str_nat (nat i))"

text \<open>\<^verbatim>\<open>str(v)\<close> for a cell value.\<close>

fun str :: "pyval \<Rightarrow> string" where
  "str (S s) = s"
| "str (I i) = str_int i"

definition pad2 :: "nat \<Rightarrow> string" where
  "pad2 n = [digit_char ((n div 10) mod 10), digit_char (n mod 10)]"

text \<open>\<^verbatim>\<open>dt.strftime("%I:%M %p")\<close>: twelve-hour clock, zero padded, with AM or PM.\<close>

definition strftime_I_M_p :: "datetime \<Rightarrow> string" where
  "strftime_I_M_p t =
     (let h = nat ((t div 3600) mod 24);
          m = nat ((t div 60) mod 60);
          h12 = (if h mod 12 = 0 then 12 else h mod 12)
      in pad2 h12 @ '':'' @ pad2 m @ '' '' @ (if h < 12 then ''AM'' else ''PM''))"

text \<open>
  \<^verbatim>\<open>int((check_in - start_dt).total_seconds() / 60)\<close>: the quotient is truncated towards
  zero. On whole seconds the floating-point quotient is exact enough for the truncation to be
  the integer one.
\<close>

definition minutes_late_of :: "datetime \<Rightarrow> datetime \<Rightarrow> int" where
  "minutes_late_of check_in start_dt =
     (let d = check_in - start_dt in if 0 \<le> d then d div 60 else - ((- d) div 60))"

section \<open>The lightweight status calculator (generate_report.py)\<close>

type_synonym buckets = "pydict list \<times> pydict list \<times> pydict list \<times> pydict list"

text \<open>One iteration of the loop of \<^verbatim>\<open>_calculate_statuses\<close> over the employees.\<close>

definition calculate_status_step ::
  "(string \<rightharpoonup> datetime) \<Rightarrow> datetime \<Rightarrow> employee \<Rightarrow> buckets \<Rightarrow> buckets" where
  "calculate_status_step first_entries start_dt emp b =
     (case b of (present, late, initially_absent_late, absent) \<Rightarrow>
        (let normalized_email = normalize_email (email emp) in
         case first_entries normalized_email of
           Some check_in \<Rightarrow>
             (let minutes_late = minutes_late_of check_in start_dt;
                  emp_details = [(''name'', S (name emp)), (''email'', S (email emp)),
                                 (''arrival_time'', S (strftime_I_M_p check_in)),
                                 (''minutes_late'', I minutes_late)]
              in if minutes_late \<le> 5 then
                   (present @ [emp_details], late, initially_absent_late, absent)
                 else if minutes_late \<le> 30 then
                   (present, late @ [emp_details], initially_absent_late, absent)
                 else
                   (present, late, initially_absent_late,
                    absent @ [[(''name'', S (name emp)), (''email'', S (email emp))]]))
         | None \<Rightarrow>
             (present, late, initially_absent_late,
              absent @ [[(''name'', S (name emp)), (''email'', S (email emp))]])))"

fun calculate_statuses_loop ::
  "(string \<rightharpoonup> datetime) \<Rightarrow> datetime \<Rightarrow> employee list \<Rightarrow> buckets \<Rightarrow> buckets" where
  "calculate_statuses_loop first_entries start_dt [] b = b"
| "calculate_statuses_loop first_entries start_dt (emp # emps) b =
     calculate_statuses_loop first_entries start_dt emps
       (calculate_status_step first_entries start_dt emp b)"

definition calculate_statuses ::
  "employee list \<Rightarrow> (string \<rightharpoonup> datetime) \<Rightarrow> datetime \<Rightarrow> buckets" where
  "calculate_statuses employees first_entries start_dt =
     calculate_statuses_loop first_entries start_dt employees ([], [], [], [])"

section \<open>The four-bucket classifier (attendance_tracker.py)\<close>

definition is_digit :: "char \<Rightarrow> bool" where
  "is_digit c = (let n = (of_char c :: nat) in 48 \<le> n \<and> n \<le> 57)"

definition digit_val :: "char \<Rightarrow> nat" where
  "digit_val c = (of_char c :: nat) - 48"

text \<open>
  The minute part of \<^verbatim>\<open>"%H:%M"\<close>: the pattern \<^verbatim>\<open>[0-5]\d|\d\<close>, then the end of the string
  (anything left over is "unconverted data", a ValueError).
\<close>

definition parse_minute :: "string \<Rightarrow> nat option" where
  "parse_minute s =
     (case s of
        [x] \<Rightarrow> if is_digit x then Some (digit_val x) else None
      | [x, y] \<Rightarrow>
          if is_digit x \<and> digit_val x \<le> 5 \<and> is_digit y then Some (10 * digit_val x + digit_val y)
          else None
      | _ \<Rightarrow> None)"

text \<open>
  \<^verbatim>\<open>datetime.datetime.strptime(s, "%H:%M").time()\<close> as hour and minute; None stands for the
  ValueError of a string that does not match. The hour pattern is \<^verbatim>\<open>2[0-3]|[0-1]\d|\d\<close>.
\<close>

definition strptime_HM :: "string \<Rightarrow> (nat \<times> nat) option" where
  "strptime_HM s =
     (case s of
        a # b # rest \<Rightarrow>
          if is_digit a \<and> is_digit b then
            (if (digit_val a = 2 \<and> digit_val b \<le> 3) \<or> digit_val a \<le> 1 then
               (case rest of
                  c # rest' \<Rightarrow>
                    if c = CHR '':'' then
                      map_option (\<lambda>m. (10 * digit_val a + digit_val b, m)) (parse_minute rest')
                    else None
                | [] \<Rightarrow> None)
             else None)
          else if is_digit a \<and> b = CHR '':'' then
            map_option (\<lambda>m. (digit_val a, m)) (parse_minute rest)
          else None
      | _ \<Rightarrow> None)"

text \<open>\<^verbatim>\<open>datetime.combine(date, time, tzinfo=tz)\<close> on the run's date.\<close>

definition combine :: "nat \<times> nat \<Rightarrow> datetime" where
  "combine hm = int (fst hm) * 3600 + int (snd hm) * 60"

text \<open>\<^verbatim>\<open>AttendanceTracker.get_user_name\<close>: the cached name when it is non-empty, else the email.\<close>

definition get_user_name :: "(string \<rightharpoonup> string) \<Rightarrow> string \<Rightarrow> string" where
  "get_user_name user_cache e =
     (case user_cache e of
        Some n \<Rightarrow> if n \<noteq> [] then n else e
      | None \<Rightarrow> e)"

text \<open>
  The per-user start datetime: the override of \<^verbatim>\<open>CUSTOM_START_TIMES\<close> when the email has
  one, parsed with \<^verbatim>\<open>strptime\<close> (None is its ValueError), else the default.
\<close>

definition user_start_dt ::
  "datetime \<Rightarrow> (string \<rightharpoonup> string) \<Rightarrow> string \<Rightarrow> datetime option" where
  "user_start_dt start_datetime_default CUSTOM_START_TIMES e =
     (case CUSTOM_START_TIMES e of
        Some s \<Rightarrow> map_option combine (strptime_HM s)
      | None \<Rightarrow> Some start_datetime_default)"

text \<open>
  One iteration of the loop of \<^verbatim>\<open>categorize_attendance\<close> over \<^verbatim>\<open>hr_team_emails\<close>. The
  per-user start time is parsed first, so a malformed override raises before any bucket is
  touched.
\<close>

definition categorize_step ::
  "datetime \<Rightarrow> (string \<rightharpoonup> string) \<Rightarrow> (string \<rightharpoonup> string) \<Rightarrow> (string \<rightharpoonup> datetime) \<Rightarrow>
   string \<Rightarrow> buckets \<Rightarrow> error + buckets" where
  "categorize_step start_datetime_default CUSTOM_START_TIMES user_cache first_entries e b =
     (case b of (on_time, late, very_late, absentees) \<Rightarrow>
        (let nm = get_user_name user_cache e;
             first_entry = first_entries e;
             five_pm_datetime = combine (17, 0)
         in case user_start_dt start_datetime_default CUSTOM_START_TIMES e of
              None \<Rightarrow> Inl ValueError
            | Some start_dt \<Rightarrow>
                (let start_cutoff = start_dt;
                     sixty_after = start_dt + 60 * 60
                 in case first_entry of
                      None \<Rightarrow>
                        Inr (on_time, late, very_late,
                             absentees @ [[(''email'', S e), (''name'', S nm)]])
                    | Some fe \<Rightarrow>
                        if fe \<le> start_cutoff then
                          Inr (on_time @ [[(''email'', S e), (''name'', S nm),
                                           (''arrival_time'', S (strftime_I_M_p fe))]],
                               late, very_late, absentees)
                        else if fe < sixty_after then
                          Inr (on_time,
                               late @ [[(''email'', S e), (''name'', S nm),
                                        (''arrival_time'', S (strftime_I_M_p fe)),
                                        (''minutes_late'', I (minutes_late_of fe start_dt))]],
                               very_late, absentees)
                        else if fe < five_pm_datetime then
                          Inr (on_time, late,
                               very_late @ [[(''email'', S e), (''name'', S nm),
                                             (''arrival_time'', S (strftime_I_M_p fe)),
                                             (''minutes_late'', I (minutes_late_of fe start_dt))]],
                               absentees)
                        else
                          Inr (on_time, late, very_late,
                               absentees @ [[(''email'', S e), (''name'', S nm)]]))))"

fun categorize_loop ::
  "datetime \<Rightarrow> (string \<rightharpoonup> string) \<Rightarrow> (string \<rightharpoonup> string) \<Rightarrow> (string \<rightharpoonup> datetime) \<Rightarrow>
   string list \<Rightarrow> buckets \<Rightarrow> error + buckets" where
  "categorize_loop d c u f [] b = Inr b"
| "categorize_loop d c u f (e # es) b =
     (case categorize_step d c u f e b of
        Inl err \<Rightarrow> Inl err
      | Inr b' \<Rightarrow> categorize_loop d c u f es b')"

text \<open>
  \<^verbatim>\<open>categorize_attendance(first_entries, hr_team_emails)\<close>. The configuration constants
  \<^verbatim>\<open>START_TIME\<close> and \<^verbatim>\<open>CUSTOM_START_TIMES\<close> live in config.py and are parameters here.
  The source also computes \<^verbatim>\<open>five_minutes_after_default\<close> and
  \<^verbatim>\<open>thirty_minutes_after_default\<close> and never reads them; the ladder compares with
  \<^verbatim>\<open>start_cutoff = start_dt\<close> and \<^verbatim>\<open>sixty_after\<close>. The team is a Python set; it is given as the list of its members in iteration order.
\<close>

text \<open>
  \<^verbatim>\<open>from config import CUSTOM_START_TIMES\<close> inside try/except ImportError: a constant that
  is not defined (None) is replaced by the empty dictionary.
\<close>

definition custom_of :: "(string \<rightharpoonup> string) option \<Rightarrow> (string \<rightharpoonup> string)" where
  "custom_of cfg = (case cfg of None \<Rightarrow> Map.empty | Some m \<Rightarrow> m)"

definition categorize_attendance ::
  "string \<Rightarrow> (string \<rightharpoonup> string) option \<Rightarrow> (string \<rightharpoonup> string) \<Rightarrow> (string \<rightharpoonup> datetime) \<Rightarrow>
   string list \<Rightarrow> error + buckets" where
  "categorize_attendance START_TIME CUSTOM_START_TIMES_cfg user_cache first_entries hr_team_emails =
     (case strptime_HM START_TIME of
        None \<Rightarrow> Inl ValueError
      | Some hm \<Rightarrow>
          (let start_datetime_default = combine hm;
               CUSTOM_START_TIMES = custom_of CUSTOM_START_TIMES_cfg
           in categorize_loop start_datetime_default CUSTOM_START_TIMES user_cache first_entries
                hr_team_emails ([], [], [], [])))"

section \<open>The WebWork payload and what is read from it\<close>

text \<open>
  The payload of the daily-timeline API is nested: report, projects, tasks, time entries. Keys
  read with \<^verbatim>\<open>.get(key, [])\<close> are lists (empty when the key is missing); keys read with
  \<^verbatim>\<open>.get(key)\<close> are options. A time entry is what \<^verbatim>\<open>entry["beginDatetime"]\<close> finds: no such
  key, a value that is not a string, or a string.
\<close>

datatype begin_field = NoKey | NotStr | Str string

datatype project = Project (projectName: "string option") (tasks: "begin_field list list")

datatype report = Report (report_email: "string option") (report_projects: "project list")

text \<open>
  The value handed to the extraction functions: Python's None, a dictionary without the key
  \<^verbatim>\<open>"dateReport"\<close> (the empty dictionary is one), or a dictionary with the report list.
\<close>

datatype webwork_data = PyNone | NoDateReport | DateReport "report list"

subsection \<open>get_hr_team_members (attendance_tracker.py)\<close>

text \<open>
  The loop over the projects of one report: the first project named as the HR project adds the
  report's email, when it is a non-empty string, and breaks.
\<close>

fun hr_scan_projects :: "string \<Rightarrow> string option \<Rightarrow> project list \<Rightarrow> string set \<Rightarrow> string set" where
  "hr_scan_projects hr_project_name e [] hr_team_emails = hr_team_emails"
| "hr_scan_projects hr_project_name e (p # ps) hr_team_emails =
     (if projectName p = Some hr_project_name then
        (case e of
           Some em \<Rightarrow> if em \<noteq> [] then insert em hr_team_emails else hr_team_emails
         | None \<Rightarrow> hr_team_emails)
      else hr_scan_projects hr_project_name e ps hr_team_emails)"

fun hr_scan_reports :: "string \<Rightarrow> report list \<Rightarrow> string set \<Rightarrow> string set" where
  "hr_scan_reports hr_project_name [] hr_team_emails = hr_team_emails"
| "hr_scan_reports hr_project_name (r # rs) hr_team_emails =
     hr_scan_reports hr_project_name rs
       (hr_scan_projects hr_project_name (report_email r) (report_projects r) hr_team_emails)"

text \<open>
  \<^verbatim>\<open>get_hr_team_members(data)\<close>. \<^verbatim>\<open>HR_PROJECT_NAME\<close>, \<^verbatim>\<open>ADDITIONAL_HR_EMAILS\<close> and
  \<^verbatim>\<open>EXCLUDED_EMAILS\<close> are constants of config.py and parameters here; the two lists are
  imported inside try/except ImportError, so each is an option and None skips its step. The
  result is a set (returned as a list of its members in no particular order).
\<close>

definition get_hr_team_members ::
  "string \<Rightarrow> string list option \<Rightarrow> string list option \<Rightarrow> webwork_data \<Rightarrow> string set" where
  "get_hr_team_members hr_project_name ADDITIONAL_HR_EMAILS EXCLUDED_EMAILS data =
     (case data of
        PyNone \<Rightarrow> {}
      | NoDateReport \<Rightarrow> {}
      | DateReport reports \<Rightarrow>
          (let hr_team_emails = hr_scan_reports hr_project_name reports {};
               hr_team_emails =
                 (case ADDITIONAL_HR_EMAILS of
                    Some l \<Rightarrow> hr_team_emails \<union> set l
                  | None \<Rightarrow> hr_team_emails);
               hr_team_emails =
                 (case EXCLUDED_EMAILS of
                    Some l \<Rightarrow> hr_team_emails - set l
                  | None \<Rightarrow> hr_team_emails)
           in hr_team_emails))"

subsection \<open>get_first_check_in_times (generate_report.py)\<close>

text \<open>
  The loop over the time entries of one task. A missing \<^verbatim>\<open>beginDatetime\<close> key raises KeyError,
  which the \<^verbatim>\<open>except (ValueError, TypeError)\<close> does not catch; a value that is not a string
  (TypeError) or does not parse (ValueError) is skipped.
\<close>

fun scan_entries :: "begin_field list \<Rightarrow> datetime option \<Rightarrow> error + datetime option" where
  "scan_entries [] first_entry_time = Inr first_entry_time"
| "scan_entries (NoKey # es) first_entry_time = Inl KeyError"
| "scan_entries (NotStr # es) first_entry_time = scan_entries es first_entry_time"
| "scan_entries (Str s # es) first_entry_time =
     (case strptime_HM s of
        None \<Rightarrow> scan_entries es first_entry_time
      | Some begin_time \<Rightarrow>
          (let entry_datetime = combine begin_time in
           case first_entry_time of
             None \<Rightarrow> scan_entries es (Some entry_datetime)
           | Some t \<Rightarrow>
               if entry_datetime < t then scan_entries es (Some entry_datetime)
               else scan_entries es (Some t)))"

fun scan_tasks :: "begin_field list list \<Rightarrow> datetime option \<Rightarrow> error + datetime option" where
  "scan_tasks [] first_entry_time = Inr first_entry_time"
| "scan_tasks (task # ts) first_entry_time =
     (case scan_entries task first_entry_time of
        Inl err \<Rightarrow> Inl err
      | Inr t \<Rightarrow> scan_tasks ts t)"

fun scan_projects :: "project list \<Rightarrow> datetime option \<Rightarrow> error + datetime option" where
  "scan_projects [] first_entry_time = Inr first_entry_time"
| "scan_projects (p # ps) first_entry_time =
     (case scan_tasks (tasks p) first_entry_time of
        Inl err \<Rightarrow> Inl err
      | Inr t \<Rightarrow> scan_projects ps t)"

fun first_check_in_loop ::
  "report list \<Rightarrow> (string \<rightharpoonup> datetime) \<Rightarrow> error + (string \<rightharpoonup> datetime)" where
  "first_check_in_loop [] first_entries = Inr first_entries"
| "first_check_in_loop (r # rs) first_entries =
     (case report_email r of
        None \<Rightarrow> first_check_in_loop rs first_entries
      | Some e \<Rightarrow>
          if e = [] then first_check_in_loop rs first_entries
          else
            (let normalized_email = normalize_email e in
             case scan_projects (report_projects r) None of
               Inl err \<Rightarrow> Inl err
             | Inr None \<Rightarrow> first_check_in_loop rs first_entries
             | Inr (Some t) \<Rightarrow> first_check_in_loop rs (first_entries(normalized_email \<mapsto> t))))"

definition get_first_check_in_times :: "webwork_data \<Rightarrow> error + (string \<rightharpoonup> datetime)" where
  "get_first_check_in_times webwork_data =
     (case webwork_data of
        PyNone \<Rightarrow> Inr Map.empty
      | NoDateReport \<Rightarrow> Inr Map.empty
      | DateReport reports \<Rightarrow> first_check_in_loop reports Map.empty)"

subsection \<open>get_department_employees_from_webwork (generate_report.py)\<close>

text \<open>\<^verbatim>\<open>AttendanceReportGenerator.get_user_name\<close>: \<^verbatim>\<open>self.user_cache.get(email, email)\<close>.\<close>

definition report_get_user_name :: "(string \<rightharpoonup> string) \<Rightarrow> string \<Rightarrow> string" where
  "report_get_user_name user_cache e = (case user_cache e of Some n \<Rightarrow> n | None \<Rightarrow> e)"

text \<open>
  A dictionary from department to employee list, in the insertion order of
  \<^verbatim>\<open>DEPARTMENTS_CONFIG\<close> (a constant of config.py, a parameter here: department and its
  project names).
\<close>

type_synonym department_employees = "(string \<times> employee list) list"

text \<open>
  \<^verbatim>\<open>if not any(e['email'] == email ...): department_employees[dept].append(...)\<close>
\<close>

definition append_employee :: "string \<Rightarrow> employee \<Rightarrow> department_employees \<Rightarrow> department_employees" where
  "append_employee dept emp de =
     map (\<lambda>(d, emps).
            if d = dept then
              (d, if \<exists>e\<in>set emps. email e = email emp then emps else emps @ [emp])
            else (d, emps)) de"

fun scan_departments ::
  "(string \<times> string list) list \<Rightarrow> string option \<Rightarrow> employee \<Rightarrow> department_employees \<Rightarrow>
   department_employees" where
  "scan_departments [] project_name emp de = de"
| "scan_departments ((dept, proj_list) # cfg) project_name emp de =
     scan_departments cfg project_name emp
       (case project_name of
          Some pn \<Rightarrow> if pn \<in> set proj_list then append_employee dept emp de else de
        | None \<Rightarrow> de)"

fun scan_report_projects ::
  "(string \<times> string list) list \<Rightarrow> project list \<Rightarrow> employee \<Rightarrow> department_employees \<Rightarrow>
   department_employees" where
  "scan_report_projects cfg [] emp de = de"
| "scan_report_projects cfg (p # ps) emp de =
     scan_report_projects cfg ps emp (scan_departments cfg (projectName p) emp de)"

fun department_loop ::
  "(string \<times> string list) list \<Rightarrow> (string \<rightharpoonup> string) \<Rightarrow> report list \<Rightarrow> department_employees \<Rightarrow>
   department_employees" where
  "department_loop cfg user_cache [] de = de"
| "department_loop cfg user_cache (r # rs) de =
     (case report_email r of
        None \<Rightarrow> department_loop cfg user_cache rs de
      | Some e \<Rightarrow>
          if e = [] then department_loop cfg user_cache rs de
          else
            department_loop cfg user_cache rs
              (scan_report_projects cfg (report_projects r)
                 \<lparr>name = report_get_user_name user_cache e, email = e\<rparr> de))"

definition get_department_employees_from_webwork ::
  "(string \<times> string list) list \<Rightarrow> (string \<rightharpoonup> string) \<Rightarrow> webwork_data \<Rightarrow> department_employees" where
  "get_department_employees_from_webwork DEPARTMENTS_CONFIG user_cache webwork_data =
     (let department_employees = map (\<lambda>(dept, proj_list). (dept, [])) DEPARTMENTS_CONFIG in
      case webwork_data of
        PyNone \<Rightarrow> department_employees
      | NoDateReport \<Rightarrow> department_employees
      | DateReport reports \<Rightarrow>
          filter (\<lambda>(dept, emps). emps \<noteq> [])
            (department_loop DEPARTMENTS_CONFIG user_cache reports department_employees))"

text \<open>\<^verbatim>\<open>department_employees.get(department, [])\<close>, as the callers read a roster.\<close>

definition roster_of :: "department_employees \<Rightarrow> string \<Rightarrow> employee list" where
  "roster_of de department = (case map_of de department of Some emps \<Rightarrow> emps | None \<Rightarrow> [])"

section \<open>The sheet merge (generate_report.py, _update_department_sheet)\<close>

text \<open>
  The worksheet is the table \<^verbatim>\<open>worksheet.get_all_values()\<close> returns: a list of rows of
  strings, the first one the header. The merge is modelled from the values read to the values
  written back by \<^verbatim>\<open>worksheet.update\<close>; the date is the string \<^verbatim>\<open>date.strftime('%Y-%m-%d')\<close>.
\<close>

type_synonym sheet = "string list list"

text \<open>The first index of the date in the header row (the loop with \<^verbatim>\<open>break\<close>).\<close>

fun find_date_col :: "string \<Rightarrow> string list \<Rightarrow> nat \<Rightarrow> nat option" where
  "find_date_col date_str [] i = None"
| "find_date_col date_str (col # cols) i =
     (if col = date_str then Some i else find_date_col date_str cols (Suc i))"

text \<open>\<^verbatim>\<open>while len(row) < n: row.append("")\<close>\<close>

definition pad_row :: "nat \<Rightarrow> string list \<Rightarrow> string list" where
  "pad_row n row = row @ replicate (n - length row) []"

text \<open>The dictionary from normalised email to row number; a later row overwrites an earlier one.\<close>

fun build_email_to_row :: "string list list \<Rightarrow> nat \<Rightarrow> (string \<rightharpoonup> nat) \<Rightarrow> (string \<rightharpoonup> nat)" where
  "build_email_to_row [] i email_to_row = email_to_row"
| "build_email_to_row (row # rows) i email_to_row =
     build_email_to_row rows (Suc i)
       (if 1 < length row then
          (let e = row ! 1 in
           if e \<noteq> [] then email_to_row(normalize_email e \<mapsto> i) else email_to_row)
        else email_to_row)"

text \<open>\<^verbatim>\<open>{emp['email'].lower().strip(): emp for emp in employees}\<close>\<close>

fun build_webwork_employees :: "employee list \<Rightarrow> (string \<rightharpoonup> employee) \<Rightarrow> (string \<rightharpoonup> employee)" where
  "build_webwork_employees [] m = m"
| "build_webwork_employees (emp # emps) m =
     build_webwork_employees emps (m(normalize_email (email emp) \<mapsto> emp))"

text \<open>The status written to the sheet for a normalised email: the three-value collapse.\<close>

definition sheet_status :: "(string \<rightharpoonup> datetime) \<Rightarrow> datetime \<Rightarrow> string \<Rightarrow> string" where
  "sheet_status first_entries start_dt normalized_email =
     (case first_entries normalized_email of
        Some check_in \<Rightarrow>
          (let minutes_late = minutes_late_of check_in start_dt in
           if minutes_late \<le> 5 then ''Present''
           else if minutes_late \<le> 30 then ''Late''
           else ''Absent'')
      | None \<Rightarrow> ''Absent'')"

text \<open>
  One iteration of the loop over the existing rows. The second component tells whether the
  iteration assigned the local variable \<^verbatim>\<open>status\<close> (it does in the matched branch only). The
  row has been padded to the header's length before it is written to, so both index writes are
  in range.
\<close>

definition update_existing_row ::
  "string list \<Rightarrow> nat \<Rightarrow> (string \<rightharpoonup> employee) \<Rightarrow> (string \<rightharpoonup> datetime) \<Rightarrow> datetime \<Rightarrow>
   string list \<Rightarrow> string list \<times> bool" where
  "update_existing_row header_row date_col_index webwork_employees first_entries start_dt row =
     (if 1 < length row then
        (let e = row ! 1 in
         if e \<noteq> [] then
           (let normalized_email = normalize_email e;
                row1 = pad_row (length header_row) row
            in case webwork_employees normalized_email of
                 Some emp \<Rightarrow>
                   ((row1[0 := name emp])
                      [date_col_index := sheet_status first_entries start_dt normalized_email],
                    True)
               | None \<Rightarrow> (row1[date_col_index := ''Absent''], False))
         else (row, False))
      else (row, False))"

text \<open>The row appended for a roster member that has no row yet.\<close>

definition new_employee_row ::
  "string list \<Rightarrow> nat \<Rightarrow> (string \<rightharpoonup> datetime) \<Rightarrow> datetime \<Rightarrow> employee \<Rightarrow> string list" where
  "new_employee_row header_row date_col_index first_entries start_dt emp =
     [name emp, email emp] @
     map (\<lambda>i. if i = date_col_index
               then sheet_status first_entries start_dt (normalize_email (email emp))
               else [])
         [2..<length header_row]"

text \<open>
  The loop over the roster that appends the new rows. \<^verbatim>\<open>status\<close> is assigned by the inner loop
  when the date column is one of the columns \<^verbatim>\<open>range(2, len(header_row))\<close>; the message printed
  after each appended row reads it, which raises UnboundLocalError when nothing assigned it.
\<close>

fun add_new_employees ::
  "string list \<Rightarrow> nat \<Rightarrow> (string \<rightharpoonup> nat) \<Rightarrow> (string \<rightharpoonup> datetime) \<Rightarrow> datetime \<Rightarrow>
   employee list \<Rightarrow> string list list \<Rightarrow> bool \<Rightarrow> error + string list list" where
  "add_new_employees header_row date_col_index email_to_row first_entries start_dt [] rows bound =
     Inr rows"
| "add_new_employees header_row date_col_index email_to_row first_entries start_dt (emp # emps)
       rows bound =
     (if email_to_row (normalize_email (email emp)) = None then
        (let bound' = (bound \<or> (2 \<le> date_col_index \<and> date_col_index < length header_row)) in
         if bound' then
           add_new_employees header_row date_col_index email_to_row first_entries start_dt emps
             (rows @ [new_employee_row header_row date_col_index first_entries start_dt emp])
             bound'
         else Inl UnboundLocalError)
      else
        add_new_employees header_row date_col_index email_to_row first_entries start_dt emps
          rows bound)"

text \<open>
  Finding the date column or creating it: a new column is appended to the header and every
  data row is padded to the new header length.
\<close>

definition locate_date_column ::
  "string \<Rightarrow> string list \<Rightarrow> string list list \<Rightarrow> nat \<times> string list \<times> string list list" where
  "locate_date_column date_str header_row rows =
     (case find_date_col date_str header_row 0 of
        Some i \<Rightarrow> (i, header_row, rows)
      | None \<Rightarrow>
          (length header_row, header_row @ [date_str],
           map (pad_row (Suc (length header_row))) rows))"

text \<open>
  The rest of the merge once the date column is known: index the rows by email, update the
  existing rows, append the new employees.
\<close>

definition reconcile_rows ::
  "string list \<Rightarrow> nat \<Rightarrow> string list list \<Rightarrow> employee list \<Rightarrow> (string \<rightharpoonup> datetime) \<Rightarrow>
   datetime \<Rightarrow> error + sheet" where
  "reconcile_rows header_row date_col_index rows employees first_entries start_dt =
     (let email_to_row = build_email_to_row rows 1 Map.empty;
          webwork_employees = build_webwork_employees employees Map.empty;
          updated = map (update_existing_row header_row date_col_index webwork_employees
                           first_entries start_dt) rows
      in case add_new_employees header_row date_col_index email_to_row first_entries
                start_dt employees (map fst updated) (list_ex snd updated) of
           Inl err \<Rightarrow> Inl err
         | Inr rows' \<Rightarrow> Inr (header_row # rows'))"

text \<open>
  \<^verbatim>\<open>_update_department_sheet\<close>: the table written to the worksheet, or the exception raised
  before anything is written. An empty sheet gets the two-column structure and nothing else.
\<close>

definition update_department_sheet ::
  "sheet \<Rightarrow> string \<Rightarrow> employee list \<Rightarrow> (string \<rightharpoonup> datetime) \<Rightarrow> datetime \<Rightarrow> error + sheet" where
  "update_department_sheet existing_data date_str employees first_entries start_dt =
     (case existing_data of
        [] \<Rightarrow> Inr ([''Name'', ''Email''] # map (\<lambda>emp. [name emp, email emp]) employees)
      | header_row0 # rows0 \<Rightarrow>
          (case locate_date_column date_str header_row0 rows0 of
             (date_col_index, header_row, rows) \<Rightarrow>
               reconcile_rows header_row date_col_index rows employees first_entries start_dt))"

text \<open>
  The worksheet after the call: the table written, or the table as it was when the call raised
  (the exception leaves the function before \<^verbatim>\<open>worksheet.clear()\<close>).
\<close>

definition worksheet_after ::
  "sheet \<Rightarrow> string \<Rightarrow> employee list \<Rightarrow> (string \<rightharpoonup> datetime) \<Rightarrow> datetime \<Rightarrow> sheet" where
  "worksheet_after existing_data date_str employees first_entries start_dt =
     (case update_department_sheet existing_data date_str employees first_entries start_dt of
        Inl err \<Rightarrow> existing_data
      | Inr written \<Rightarrow> written)"

section \<open>The report tables\<close>

text \<open>\<^verbatim>\<open>s.ljust(width)\<close>, \<^verbatim>\<open>sep.join(parts)\<close> and the code block around a table.\<close>

definition ljust :: "nat \<Rightarrow> string \<Rightarrow> string" where
  "ljust width s = s @ replicate (width - length s) CHR '' ''"

fun join :: "string \<Rightarrow> string list \<Rightarrow> string" where
  "join sep [] = []"
| "join sep [x] = x"
| "join sep (x # y # ys) = x @ sep @ join sep (y # ys)"

definition code_block :: "string list \<Rightarrow> string" where
  "code_block lines = ''```'' @ [CHR 0x0A] @ join [CHR 0x0A] lines @ [CHR 0x0A] @ ''```''"

text \<open>
  \<^verbatim>\<open>cell.ljust(col_widths[i]) for i, cell in enumerate(cells)\<close>: the width is read by index,
  which raises IndexError for a cell beyond the last width.
\<close>

fun ljust_cells :: "nat list \<Rightarrow> string list \<Rightarrow> error + string list" where
  "ljust_cells ws [] = Inr []"
| "ljust_cells [] (c # cs) = Inl IndexError"
| "ljust_cells (w # ws) (c # cs) =
     (case ljust_cells ws cs of
        Inl err \<Rightarrow> Inl err
      | Inr r \<Rightarrow> Inr (ljust w c # r))"

text \<open>\<^verbatim>\<open>"-" * col_widths[i] for i in range(n)\<close>\<close>

definition dashes :: "nat list \<Rightarrow> nat \<Rightarrow> error + string list" where
  "dashes col_widths n =
     (if n \<le> length col_widths then Inr (map (\<lambda>w. replicate w CHR ''-'') (take n col_widths))
      else Inl IndexError)"

fun render_rows :: "nat list \<Rightarrow> string list list \<Rightarrow> error + string list" where
  "render_rows col_widths [] = Inr []"
| "render_rows col_widths (row # rows) =
     (case ljust_cells col_widths row of
        Inl err \<Rightarrow> Inl err
      | Inr cells \<Rightarrow>
          (case render_rows col_widths rows of
             Inl err \<Rightarrow> Inl err
           | Inr lines \<Rightarrow> Inr (join '' | '' cells # lines)))"

text \<open>The three steps that both table builders share once the column widths are known.\<close>

definition render_table :: "nat list \<Rightarrow> string list \<Rightarrow> string list list \<Rightarrow> error + string" where
  "render_table col_widths headers rows =
     (case ljust_cells col_widths headers of
        Inl err \<Rightarrow> Inl err
      | Inr hs \<Rightarrow>
          (case dashes col_widths (length headers) of
             Inl err \<Rightarrow> Inl err
           | Inr ds \<Rightarrow>
               (case render_rows col_widths rows of
                  Inl err \<Rightarrow> Inl err
                | Inr body_lines \<Rightarrow>
                    Inr (code_block (join '' | '' hs # join ''-|-'' ds # body_lines)))))"

subsection \<open>build_table (attendance_tracker.py)\<close>

text \<open>
  \<^verbatim>\<open>col_widths[i] = max(col_widths[i], len(str(cell)))\<close> for every cell of a row: a row
  with more cells than there are widths raises IndexError.
\<close>

fun widen_strict :: "nat list \<Rightarrow> string list \<Rightarrow> error + nat list" where
  "widen_strict ws [] = Inr ws"
| "widen_strict [] (c # cs) = Inl IndexError"
| "widen_strict (w # ws) (c # cs) =
     (case widen_strict ws cs of
        Inl err \<Rightarrow> Inl err
      | Inr ws' \<Rightarrow> Inr (max w (length c) # ws'))"

fun widen_all_strict :: "nat list \<Rightarrow> string list list \<Rightarrow> error + nat list" where
  "widen_all_strict ws [] = Inr ws"
| "widen_all_strict ws (row # rows) =
     (case widen_strict ws row of
        Inl err \<Rightarrow> Inl err
      | Inr ws' \<Rightarrow> widen_all_strict ws' rows)"

text \<open>
  The helper \<^verbatim>\<open>build_table(headers, rows)\<close> nested in the three Slack reports of the tracker;
  a row is a list of cells, each a string or an integer.
\<close>

definition build_table :: "string list \<Rightarrow> pyval list list \<Rightarrow> error + string" where
  "build_table headers rows =
     (case widen_all_strict (map length headers) (map (map str) rows) of
        Inl err \<Rightarrow> Inl err
      | Inr col_widths \<Rightarrow> render_table col_widths headers (map (map str) rows))"

subsection \<open>SlackNotifier._build_ascii_table (generate_report.py)\<close>

text \<open>A row handed to the table: a dictionary of a status list, or a list of cells.\<close>

datatype table_row = DictRow pydict | ListRow "pyval list"

text \<open>The conversion of a row to a list of cells, by the keys the dictionary has.\<close>

definition format_row :: "table_row \<Rightarrow> pyval list" where
  "format_row row =
     (case row of
        ListRow cells \<Rightarrow> cells
      | DictRow d \<Rightarrow>
          (case (map_of d ''name'', map_of d ''email'') of
             (Some n, Some e) \<Rightarrow>
               (case map_of d ''arrival_time'' of
                  Some a \<Rightarrow>
                    (case map_of d ''minutes_late'' of
                       Some m \<Rightarrow> [n, e, a, S (str m)]
                     | None \<Rightarrow> [n, e, a])
                | None \<Rightarrow> [n, e])
           | _ \<Rightarrow> map (\<lambda>(k, v). S (str v)) d))"

text \<open>Pad or truncate a row to \<^verbatim>\<open>max_cols\<close> cells, each converted with \<^verbatim>\<open>str\<close>.\<close>

definition normalize_row :: "nat \<Rightarrow> pyval list \<Rightarrow> string list" where
  "normalize_row max_cols row =
     map (\<lambda>i. if i < length row then str (row ! i) else []) [0..<max_cols]"

text \<open>The guarded width update: \<^verbatim>\<open>if i < len(col_widths)\<close>.\<close>

fun widen :: "nat list \<Rightarrow> string list \<Rightarrow> nat list" where
  "widen ws [] = ws"
| "widen [] (c # cs) = []"
| "widen (w # ws) (c # cs) = max w (length c) # widen ws cs"

fun widen_all :: "nat list \<Rightarrow> string list list \<Rightarrow> nat list" where
  "widen_all ws [] = ws"
| "widen_all ws (row # rows) = widen_all (widen ws row) rows"

text \<open>The body of the try block, for rows that are not empty.\<close>

definition build_ascii_table_body :: "string list \<Rightarrow> table_row list \<Rightarrow> error + string" where
  "build_ascii_table_body headers rows =
     (let formatted_rows = map format_row rows in
      if formatted_rows = [] then Inr ''None.''
      else
        (let max_cols = length headers;
             normalized_rows = map (normalize_row max_cols) formatted_rows;
             col_widths = widen_all (map length headers) normalized_rows
         in render_table col_widths headers normalized_rows))"

text \<open>\<^verbatim>\<open>str(e)\<close> of the exception the fallback message quotes.\<close>

definition error_text :: "error \<Rightarrow> string" where
  "error_text err =
     (case err of
        IndexError \<Rightarrow> ''list index out of range''
      | ValueError \<Rightarrow> ''ValueError''
      | KeyError \<Rightarrow> ''KeyError''
      | UnboundLocalError \<Rightarrow> ''UnboundLocalError'')"

text \<open>
  \<^verbatim>\<open>_build_ascii_table(headers, rows)\<close>: the placeholder for no rows, the table, or the
  fallback message of the \<^verbatim>\<open>except Exception\<close> branch.
\<close>

definition build_ascii_table :: "string list \<Rightarrow> table_row list \<Rightarrow> string" where
  "build_ascii_table headers rows =
     (if rows = [] then ''None.''
      else
        (case build_ascii_table_body headers rows of
           Inr table \<Rightarrow> table
         | Inl err \<Rightarrow> ''Error building table: '' @ error_text err))"

section \<open>Auxiliary notions used by the proofs\<close>

text \<open>
  The condition under which the ladder of \<^verbatim>\<open>categorize_attendance\<close> reaches one of its two
  Absent branches, and the record those branches append.
\<close>

definition absent_rung ::
  "datetime \<Rightarrow> (string \<rightharpoonup> string) \<Rightarrow> (string \<rightharpoonup> datetime) \<Rightarrow> string \<Rightarrow> bool" where
  "absent_rung dflt custom fe e =
     (case fe e of
        None \<Rightarrow> True
      | Some ci \<Rightarrow>
          (case user_start_dt dflt custom e of
             None \<Rightarrow> False
           | Some start \<Rightarrow> start + 3600 \<le> ci \<and> 61200 \<le> ci))"

definition absent_record :: "(string \<rightharpoonup> string) \<Rightarrow> string \<Rightarrow> pydict" where
  "absent_record cache e = [(''email'', S e), (''name'', S (get_user_name cache e))]"

text \<open>
  The emails that the reports derive from the HR project: non-empty emails of reports with a
  project of that name. The manual lists, with a constant that is not defined read as empty.
\<close>

definition project_members :: "string \<Rightarrow> report list \<Rightarrow> string set" where
  "project_members hr rs =
     {e. e \<noteq> [] \<and> (\<exists>r\<in>set rs. report_email r = Some e \<and>
                        (\<exists>p\<in>set (report_projects r). projectName p = Some hr))}"

definition list_or_empty :: "string list option \<Rightarrow> string list" where
  "list_or_empty l = (case l of Some xs \<Rightarrow> xs | None \<Rightarrow> [])"

text \<open>
  Notions for the sheet merge: the normalised email a row is indexed under (None for a row
  without a non-empty second cell), whether a roster member has no row yet, a table in which
  every data row has as many cells as the header, and a sheet that is empty or has its two
  identity columns in front of the date columns.
\<close>

definition row_key :: "string list \<Rightarrow> string option" where
  "row_key row = (if 1 < length row \<and> row ! 1 \<noteq> [] then Some (normalize_email (row ! 1)) else None)"

definition is_new :: "(string \<rightharpoonup> nat) \<Rightarrow> employee \<Rightarrow> bool" where
  "is_new email_to_row emp = (email_to_row (normalize_email (email emp)) = None)"

definition rectangular :: "sheet \<Rightarrow> bool" where
  "rectangular t = (case t of [] \<Rightarrow> True | header_row # rows \<Rightarrow> \<forall>row\<in>set rows. length row = length header_row)"

definition initialised :: "sheet \<Rightarrow> string \<Rightarrow> bool" where
  "initialised t date_str =
     (case t of
        [] \<Rightarrow> True
      | header_row # rows \<Rightarrow> 2 \<le> length header_row \<and> date_str \<notin> set (take 2 header_row))"

section \<open>The third bucket of the lightweight calculator\<close>

lemma calculate_status_step_third:
  "fst (snd (snd (calculate_status_step fe st emp b))) = fst (snd (snd b))"
  by (cases b) (simp add: calculate_status_step_def Let_def split: option.splits)

lemma calculate_statuses_loop_third:
  "fst (snd (snd (calculate_statuses_loop fe st emps b))) = fst (snd (snd b))"
  by (induction emps arbitrary: b) (simp_all add: calculate_status_step_third)

lemma calculate_status_step_absent_mono:
  "set (snd (snd (snd b))) \<subseteq> set (snd (snd (snd (calculate_status_step fe st emp b))))"
  by (cases b) (auto simp add: calculate_status_step_def Let_def split: option.splits)

lemma calculate_statuses_loop_absent_mono:
  "set (snd (snd (snd b))) \<subseteq> set (snd (snd (snd (calculate_statuses_loop fe st emps b))))"
proof (induction emps arbitrary: b)
  case Nil
  show ?case by simp
next
  case (Cons emp emps)
  have "set (snd (snd (snd b))) \<subseteq> set (snd (snd (snd (calculate_status_step fe st emp b))))"
    by (rule calculate_status_step_absent_mono)
  also have "\<dots> \<subseteq> set (snd (snd (snd (calculate_statuses_loop fe st emps
                    (calculate_status_step fe st emp b)))))"
    by (rule Cons.IH)
  finally show ?case by simp
qed

lemma calculate_status_step_very_late_absent:
  assumes "fe (normalize_email (email emp)) = Some ci" and "30 < minutes_late_of ci st"
  shows "[(''name'', S (name emp)), (''email'', S (email emp))]
           \<in> set (snd (snd (snd (calculate_status_step fe st emp b))))"
  using assms by (cases b) (simp add: calculate_status_step_def Let_def)

lemma calculate_statuses_loop_very_late_absent:
  assumes "emp \<in> set emps" and "fe (normalize_email (email emp)) = Some ci"
    and "30 < minutes_late_of ci st"
  shows "[(''name'', S (name emp)), (''email'', S (email emp))]
           \<in> set (snd (snd (snd (calculate_statuses_loop fe st emps b))))"
  using assms(1)
proof (induction emps arbitrary: b)
  case Nil
  then show ?case by simp
next
  case (Cons x xs)
  show ?case
  proof (cases "x = emp")
    case True
    have "[(''name'', S (name emp)), (''email'', S (email emp))]
            \<in> set (snd (snd (snd (calculate_status_step fe st emp b))))"
      using assms(2,3) by (rule calculate_status_step_very_late_absent)
    then show ?thesis
      using calculate_statuses_loop_absent_mono [of "calculate_status_step fe st emp b" fe st xs] True
      by auto
  next
    case False
    with Cons.prems have "emp \<in> set xs" by simp
    then show ?thesis using Cons.IH by simp
  qed
qed

text \<open>
  C10. For every employee list, first-entries map and start time, the third list returned by
  \<^verbatim>\<open>_calculate_statuses\<close> (initially_absent_late) is empty, and every employee whose
  check-in is more than 30 whole minutes after the start is appended to the absent list with
  name and email only.
\<close>

theorem third_bucket_always_empty:
  assumes "calculate_statuses employees first_entries start_dt =
             (present, late, initially_absent_late, absent)"
  shows "initially_absent_late = [] \<and>
         (\<forall>emp\<in>set employees. \<forall>check_in.
            first_entries (normalize_email (email emp)) = Some check_in \<and>
            30 < minutes_late_of check_in start_dt \<longrightarrow>
            [(''name'', S (name emp)), (''email'', S (email emp))] \<in> set absent)"
proof -
  have "fst (snd (snd (calculate_statuses employees first_entries start_dt))) = []"
    by (simp add: calculate_statuses_def calculate_statuses_loop_third)
  with assms have a: "initially_absent_late = []" by simp
  have b: "\<And>emp ci. emp \<in> set employees \<Longrightarrow> first_entries (normalize_email (email emp)) = Some ci
             \<Longrightarrow> 30 < minutes_late_of ci start_dt
             \<Longrightarrow> [(''name'', S (name emp)), (''email'', S (email emp))] \<in> set absent"
  proof -
    fix emp ci
    assume h: "emp \<in> set employees" "first_entries (normalize_email (email emp)) = Some ci"
      "30 < minutes_late_of ci start_dt"
    have "[(''name'', S (name emp)), (''email'', S (email emp))]
            \<in> set (snd (snd (snd (calculate_statuses employees first_entries start_dt))))"
      unfolding calculate_statuses_def using h by (rule calculate_statuses_loop_very_late_absent)
    with assms show "[(''name'', S (name emp)), (''email'', S (email emp))] \<in> set absent" by simp
  qed
  from a b show ?thesis by blast
qed

lemmas status_eval = calculate_statuses_def calculate_status_step_def normalize_email_def lower_def lower_char_def
  strip_def is_space_def minutes_late_of_def strftime_I_M_p_def pad2_def digit_char_def combine_def

theorem third_bucket_always_empty_witness:
  "calculate_statuses [\<lparr>name = ''Al'', email = ''al@x''\<rparr>] [''al@x'' \<mapsto> 34260] 32400
     = ([], [], [], [[(''name'', S ''Al''), (''email'', S ''al@x'')]])
   \<and> ([] :: pydict list) = []
   \<and> [(''name'', S ''Al''), (''email'', S ''al@x'')]
       \<in> set [[(''name'', S ''Al''), (''email'', S ''al@x'')]]"
proof -
  have e: "calculate_statuses [\<lparr>name = ''Al'', email = ''al@x''\<rparr>] [''al@x'' \<mapsto> 34260] 32400
     = ([], [], [], [[(''name'', S ''Al''), (''email'', S ''al@x'')]])"
    by (simp add: status_eval)
  have n: "normalize_email ''al@x'' = ''al@x''" by (simp add: status_eval)
  have m: "30 < minutes_late_of 34260 32400" by (simp add: status_eval)
  from third_bucket_always_empty [OF e] n m show ?thesis using e by simp
qed

section \<open>The four-bucket classifier\<close>

lemma categorize_step_absentees:
  assumes "categorize_step d c u f e b = Inr b'"
  shows "snd (snd (snd b')) =
           snd (snd (snd b)) @ (if absent_rung d c f e then [absent_record u e] else [])"
  by (cases b)
     (use assms in \<open>auto simp add: categorize_step_def absent_rung_def absent_record_def
           combine_def Let_def split: option.splits if_splits\<close>)

lemma categorize_loop_absentees:
  assumes "categorize_loop d c u f es b = Inr b'"
  shows "snd (snd (snd b')) =
           snd (snd (snd b)) @ map (absent_record u) (filter (absent_rung d c f) es)"
  using assms
proof (induction es arbitrary: b)
  case Nil
  then show ?case by simp
next
  case (Cons e es)
  from Cons.prems obtain b1 where s: "categorize_step d c u f e b = Inr b1"
    and l: "categorize_loop d c u f es b1 = Inr b'"
    by (auto split: sum.splits)
  from categorize_step_absentees [OF s] Cons.IH [OF l] show ?case by simp
qed

lemma categorize_step_returns:
  assumes "user_start_dt d c e \<noteq> None"
  shows "\<exists>b'. categorize_step d c u f e b = Inr b'"
proof -
  from assms obtain st where st: "user_start_dt d c e = Some st" by blast
  obtain on_time late very_late absentees where b: "b = (on_time, late, very_late, absentees)"
    using prod_cases4 by blast
  show ?thesis
    by (cases "f e") (simp_all add: categorize_step_def Let_def st b)
qed

lemma categorize_loop_returns:
  assumes "\<forall>e\<in>set es. user_start_dt d c e \<noteq> None"
  shows "\<exists>b'. categorize_loop d c u f es b = Inr b'"
  using assms
proof (induction es arbitrary: b)
  case Nil
  show ?case by (simp del: split_paired_Ex)
next
  case (Cons e es)
  from Cons.prems have "user_start_dt d c e \<noteq> None" by simp
  then obtain b1 where "categorize_step d c u f e b = Inr b1"
    using categorize_step_returns by blast
  moreover from Cons.prems have "\<exists>b'. categorize_loop d c u f es b1 = Inr b'"
    by (intro Cons.IH) simp
  ultimately show ?case by simp
qed

lemma categorize_absentees_characterised:
  assumes "strptime_HM START_TIME = Some hm"
    and "\<forall>e\<in>set team. user_start_dt (combine hm) (custom_of cfg) e \<noteq> None"
  shows "\<exists>on_time late very_late absentees.
           categorize_attendance START_TIME cfg cache first_entries team
             = Inr (on_time, late, very_late, absentees) \<and>
           (\<forall>e\<in>set team.
              (\<exists>r\<in>set absentees. map_of r ''email'' = Some (S e)) =
              (case first_entries e of
                 None \<Rightarrow> True
               | Some check_in \<Rightarrow>
                   (\<exists>start. user_start_dt (combine hm) (custom_of cfg) e = Some start \<and>
                            start + 3600 \<le> check_in \<and> combine (17, 0) \<le> check_in))) \<and>
           (\<forall>r\<in>set absentees.
              map_of r ''minutes_late'' = None \<and> map_of r ''arrival_time'' = None)"
proof -
  let ?d = "combine hm" and ?c = "custom_of cfg"
  obtain b' where l: "categorize_loop ?d ?c cache first_entries team ([], [], [], []) = Inr b'"
    using categorize_loop_returns [OF assms(2)] by blast
  obtain on_time late very_late absentees where b': "b' = (on_time, late, very_late, absentees)"
    using prod_cases4 by blast
  have run: "categorize_attendance START_TIME cfg cache first_entries team
               = Inr (on_time, late, very_late, absentees)"
    using assms(1) l b' by (simp add: categorize_attendance_def)
  have ab: "absentees = map (absent_record cache) (filter (absent_rung ?d ?c first_entries) team)"
    using categorize_loop_absentees [OF l] b' by simp
  have fields: "\<forall>r\<in>set absentees.
              map_of r ''minutes_late'' = None \<and> map_of r ''arrival_time'' = None"
    unfolding ab by (simp add: absent_record_def)
  have iff: "(\<exists>r\<in>set absentees. map_of r ''email'' = Some (S e)) =
              (case first_entries e of
                 None \<Rightarrow> True
               | Some check_in \<Rightarrow>
                   (\<exists>start. user_start_dt ?d ?c e = Some start \<and>
                            start + 3600 \<le> check_in \<and> combine (17, 0) \<le> check_in))"
    if "e \<in> set team" for e
  proof -
    have "(\<exists>r\<in>set absentees. map_of r ''email'' = Some (S e))
            = (absent_rung ?d ?c first_entries e)"
      unfolding ab using that by (auto simp add: absent_record_def)
    also have "\<dots> = (case first_entries e of
                 None \<Rightarrow> True
               | Some check_in \<Rightarrow>
                   (\<exists>start. user_start_dt ?d ?c e = Some start \<and>
                            start + 3600 \<le> check_in \<and> combine (17, 0) \<le> check_in))"
      by (simp add: absent_rung_def combine_def split: option.splits)
    finally show ?thesis .
  qed
  from run fields iff show ?thesis by blast
qed

text \<open>
  C3 (as amended). When the configured start times parse, \<^verbatim>\<open>categorize_attendance\<close> returns.
  A team member with no recorded check-in is in the Absent list. A team member whose resolved
  start time is 16:00 or earlier is in the Absent list exactly when they have no recorded
  check-in or their first check-in is at or after 17:00. Every Absent record carries neither
  \<^verbatim>\<open>minutes_late\<close> nor \<^verbatim>\<open>arrival_time\<close>.
\<close>

theorem absent_exactly_when_no_check_in_or_after_cutoff:
  assumes "strptime_HM START_TIME = Some hm"
    and "\<forall>e\<in>set team. user_start_dt (combine hm) (custom_of cfg) e \<noteq> None"
  shows "\<exists>on_time late very_late absentees.
           categorize_attendance START_TIME cfg cache first_entries team
             = Inr (on_time, late, very_late, absentees) \<and>
           (\<forall>e\<in>set team. first_entries e = None \<longrightarrow>
              (\<exists>r\<in>set absentees. map_of r ''email'' = Some (S e))) \<and>
           (\<forall>e\<in>set team. \<forall>start.
              user_start_dt (combine hm) (custom_of cfg) e = Some start \<and>
              start \<le> combine (16, 0) \<longrightarrow>
              (\<exists>r\<in>set absentees. map_of r ''email'' = Some (S e)) =
              (case first_entries e of
                 None \<Rightarrow> True
               | Some check_in \<Rightarrow> combine (17, 0) \<le> check_in)) \<and>
           (\<forall>r\<in>set absentees.
              map_of r ''minutes_late'' = None \<and> map_of r ''arrival_time'' = None)"
proof -
  let ?start = "user_start_dt (combine hm) (custom_of cfg)"
  from categorize_absentees_characterised [OF assms, of cache first_entries]
  obtain on_time late very_late absentees where
    run: "categorize_attendance START_TIME cfg cache first_entries team
            = Inr (on_time, late, very_late, absentees)"
    and iff: "\<forall>e\<in>set team.
              (\<exists>r\<in>set absentees. map_of r ''email'' = Some (S e)) =
              (case first_entries e of
                 None \<Rightarrow> True
               | Some check_in \<Rightarrow>
                   (\<exists>start. ?start e = Some start \<and>
                            start + 3600 \<le> check_in \<and> combine (17, 0) \<le> check_in))"
    and fields: "\<forall>r\<in>set absentees.
              map_of r ''minutes_late'' = None \<and> map_of r ''arrival_time'' = None"
    by blast
  have none: "\<forall>e\<in>set team. first_entries e = None \<longrightarrow>
              (\<exists>r\<in>set absentees. map_of r ''email'' = Some (S e))"
    using iff by simp
  have early: "(\<exists>r\<in>set absentees. map_of r ''email'' = Some (S e)) =
              (case first_entries e of
                 None \<Rightarrow> True
               | Some check_in \<Rightarrow> combine (17, 0) \<le> check_in)"
    if e: "e \<in> set team" and s: "?start e = Some start" "start \<le> combine (16, 0)" for e start
  proof -
    from iff e have "(\<exists>r\<in>set absentees. map_of r ''email'' = Some (S e)) =
              (case first_entries e of
                 None \<Rightarrow> True
               | Some check_in \<Rightarrow>
                   (\<exists>start. ?start e = Some start \<and>
                            start + 3600 \<le> check_in \<and> combine (17, 0) \<le> check_in))"
      by blast
    also have "\<dots> = (case first_entries e of
                 None \<Rightarrow> True
               | Some check_in \<Rightarrow> combine (17, 0) \<le> check_in)"
      using s by (auto simp add: combine_def split: option.splits)
    finally show ?thesis .
  qed
  from run none early fields show ?thesis by blast
qed

lemmas categorize_eval = categorize_attendance_def strptime_HM_def parse_minute_def is_digit_def
  digit_val_def combine_def categorize_step_def user_start_dt_def get_user_name_def
  minutes_late_of_def strftime_I_M_p_def pad2_def digit_char_def Let_def custom_of_def

text \<open>
  C1. With START_TIME 09:00 and a first check-in at 09:05 (start plus the five-minute grace),
  \<^verbatim>\<open>categorize_attendance\<close> files the employee under Late with five minutes of lateness,
  where the claim and the comment on the on-time list say on time; the lightweight calculator
  files the same check-in under present.
\<close>

theorem grace_period_missing_in_categorize_attendance:
  "categorize_attendance ''09:00'' None Map.empty [''al@x'' \<mapsto> combine (9, 5)] [''al@x'']
     = Inr ([],
            [[(''email'', S ''al@x''), (''name'', S ''al@x''),
              (''arrival_time'', S ''09:05 AM''), (''minutes_late'', I 5)]],
            [], []) \<and>
   calculate_statuses [\<lparr>name = ''Al'', email = ''al@x''\<rparr>] [''al@x'' \<mapsto> combine (9, 5)]
       (combine (9, 0))
     = ([[(''name'', S ''Al''), (''email'', S ''al@x''),
          (''arrival_time'', S ''09:05 AM''), (''minutes_late'', I 5)]],
        [], [], [])"
  by (simp add: categorize_eval status_eval)

text \<open>
  C2. With START_TIME 09:00 and a first check-in at 09:31, \<^verbatim>\<open>categorize_attendance\<close> files
  the employee under Late (the rung is start plus 60 minutes), with \<^verbatim>\<open>minutes_late\<close> 31
  measured from the start time; the very-late list stays empty.
\<close>

theorem late_threshold_is_sixty_in_categorize_attendance:
  "categorize_attendance ''09:00'' None Map.empty [''al@x'' \<mapsto> combine (9, 31)] [''al@x'']
     = Inr ([],
            [[(''email'', S ''al@x''), (''name'', S ''al@x''),
              (''arrival_time'', S ''09:31 AM''), (''minutes_late'', I 31)]],
            [], [])"
  by (simp add: categorize_eval)

text \<open>
  C3 as stated fails for a late-shift override: with a start time of 17:00 a check-in at 17:00
  is at the end-of-day cutoff and is filed on time, not Absent.
\<close>

theorem late_shift_check_in_at_cutoff_counterexample:
  "categorize_attendance ''09:00'' (Some [''al@x'' \<mapsto> ''17:00'']) Map.empty
       [''al@x'' \<mapsto> combine (17, 0)] [''al@x'']
     = Inr ([[(''email'', S ''al@x''), (''name'', S ''al@x''),
              (''arrival_time'', S ''05:00 PM'')]],
            [], [], [])"
  by (simp add: categorize_eval)

theorem absent_exactly_when_no_check_in_or_after_cutoff_witness:
  "categorize_attendance ''09:00'' None Map.empty [''al@x'' \<mapsto> combine (17, 30)] [''al@x'', ''bo@x'']
     = Inr ([], [], [], [[(''email'', S ''al@x''), (''name'', S ''al@x'')],
                         [(''email'', S ''bo@x''), (''name'', S ''bo@x'')]]) \<and>
   user_start_dt (combine (9, 0)) (custom_of None) ''al@x'' = Some (combine (9, 0)) \<and>
   combine (9, 0) \<le> combine (16, 0) \<and> combine (17, 0) \<le> combine (17, 30)"
proof -
  have p: "strptime_HM ''09:00'' = Some (9, 0)" by (simp add: categorize_eval)
  have u: "\<forall>e\<in>set [''al@x'', ''bo@x'']. user_start_dt (combine (9, 0)) (custom_of None) e \<noteq> None"
    by (simp add: user_start_dt_def custom_of_def)
  have s: "user_start_dt (combine (9, 0)) (custom_of None) ''al@x'' = Some (combine (9, 0)) \<and>
           combine (9, 0) \<le> combine (16, 0) \<and> combine (17, 0) \<le> combine (17, 30)"
    by (simp add: user_start_dt_def custom_of_def combine_def)
  from absent_exactly_when_no_check_in_or_after_cutoff [OF p u, of Map.empty "[''al@x'' \<mapsto> combine (17, 30)]"] s
  show ?thesis by (simp add: categorize_eval)
qed

section \<open>Roster resolution and absent payloads\<close>

lemma hr_scan_projects_eq:
  "hr_scan_projects hr e ps acc =
     acc \<union> {em. em \<noteq> [] \<and> e = Some em \<and> (\<exists>p\<in>set ps. projectName p = Some hr)}"
  by (induction ps) (auto split: option.splits)

lemma hr_scan_reports_eq:
  "hr_scan_reports hr rs acc = acc \<union> project_members hr rs"
proof (induction rs arbitrary: acc)
  case Nil
  show ?case by (simp add: project_members_def)
next
  case (Cons r rs)
  have "project_members hr (r # rs) =
          {em. em \<noteq> [] \<and> report_email r = Some em \<and>
               (\<exists>p\<in>set (report_projects r). projectName p = Some hr)}
          \<union> project_members hr rs"
    by (auto simp add: project_members_def)
  then show ?case
    by (simp add: Cons.IH hr_scan_projects_eq Un_assoc)
qed

text \<open>
  C7 (as amended). When the payload carries a report list, the member set is the
  project-derived emails united with the manual include list, minus the manual exclude list;
  when the payload is None or has no report list the result is empty (the manual include list
  is not consulted). In every case an email in both manual lists is not in the result.
\<close>

theorem exclusion_after_inclusion:
  "(\<forall>reports. data = DateReport reports \<longrightarrow>
      get_hr_team_members hr incl excl data =
        (project_members hr reports \<union> set (list_or_empty incl)) - set (list_or_empty excl)) \<and>
   (data = PyNone \<or> data = NoDateReport \<longrightarrow> get_hr_team_members hr incl excl data = {}) \<and>
   (\<forall>e. e \<in> set (list_or_empty incl) \<and> e \<in> set (list_or_empty excl) \<longrightarrow>
        e \<notin> get_hr_team_members hr incl excl data)"
  by (cases data)
     (auto simp add: get_hr_team_members_def hr_scan_reports_eq list_or_empty_def Let_def
           split: option.splits)

theorem exclusion_after_inclusion_witness:
  "get_hr_team_members ''HR'' (Some [''bo@x'', ''cy@x'']) (Some [''cy@x''])
       (DateReport [Report (Some ''al@x'') [Project (Some ''HR'') []]])
     = {''al@x'', ''bo@x''}"
proof -
  have pm: "project_members ''HR'' [Report (Some ''al@x'') [Project (Some ''HR'') []]] = {''al@x''}"
    by (auto simp add: project_members_def)
  from exclusion_after_inclusion [of "DateReport [Report (Some ''al@x'') [Project (Some ''HR'') []]]"
      "''HR''" "Some [''bo@x'', ''cy@x'']" "Some [''cy@x'']"]
  show ?thesis by (auto simp add: pm list_or_empty_def)
qed

text \<open>
  C7 as stated fails without a payload: the function returns before the manual lists are read,
  so an included email that is not excluded is missing from the result.
\<close>

theorem include_list_dropped_without_payload_counterexample:
  "get_hr_team_members ''HR'' (Some [''bo@x'']) (Some []) PyNone
     \<noteq> (project_members ''HR'' [] \<union> set [''bo@x'']) - set []"
  by (simp add: get_hr_team_members_def)

text \<open>
  C8. For a payload that is None, empty, or without the top-level report list, the first
  check-in map is empty, the HR team is empty, and the department rosters are returned with
  every configured department mapped to the empty employee list (every roster read from it is
  empty); none of the three raises.
\<close>

theorem absent_payload_degrades_to_empty:
  "(data = PyNone \<or> data = NoDateReport) \<longrightarrow>
     get_first_check_in_times data = Inr Map.empty \<and>
     get_hr_team_members hr incl excl data = {} \<and>
     get_department_employees_from_webwork cfg cache data = map (\<lambda>(dept, proj_list). (dept, [])) cfg \<and>
     (\<forall>department. roster_of (get_department_employees_from_webwork cfg cache data) department = [])"
proof -
  have r: "roster_of (map (\<lambda>(dept, proj_list). (dept, [])) cfg) department = []" for department
    by (induction cfg) (auto simp add: roster_of_def split: option.splits)
  show ?thesis
    by (auto simp add: get_first_check_in_times_def get_hr_team_members_def
          get_department_employees_from_webwork_def r)
qed

theorem absent_payload_degrades_to_empty_witness:
  "get_first_check_in_times PyNone = Inr Map.empty \<and>
   get_hr_team_members ''HR'' (Some [''bo@x'']) None PyNone = {} \<and>
   get_department_employees_from_webwork [(''IT'', [''Helpdesk''])] Map.empty PyNone = [(''IT'', [])]"
  using absent_payload_degrades_to_empty [of PyNone "''HR''" "Some [''bo@x'']" None
      "[(''IT'', [''Helpdesk''])]" Map.empty]
  by simp

section \<open>The sheet merge\<close>

lemma find_date_col_Some:
  "find_date_col d cols i = Some k \<Longrightarrow> i \<le> k \<and> k < i + length cols \<and> cols ! (k - i) = d"
proof (induction cols arbitrary: i)
  case Nil
  then show ?case by simp
next
  case (Cons c cols)
  show ?case
  proof (cases "c = d")
    case True
    with Cons.prems show ?thesis by simp
  next
    case False
    with Cons.prems have "find_date_col d cols (Suc i) = Some k" by simp
    from Cons.IH [OF this] have "Suc i \<le> k" "k < Suc i + length cols" "cols ! (k - Suc i) = d"
      by simp_all
    moreover from \<open>Suc i \<le> k\<close> have "k - i = Suc (k - Suc i)" by simp
    ultimately show ?thesis by simp
  qed
qed

lemma find_date_col_None: "(find_date_col d cols i = None) = (d \<notin> set cols)"
  by (induction cols arbitrary: i) auto

lemma find_date_col_append:
  "d \<notin> set cols \<Longrightarrow> find_date_col d (cols @ [d]) i = Some (i + length cols)"
  by (induction cols arbitrary: i) auto

lemma find_date_col_ge2:
  assumes "find_date_col d cols 0 = Some k" and "d \<notin> set (take 2 cols)"
  shows "2 \<le> k"
proof (rule ccontr)
  assume "\<not> 2 \<le> k"
  then have k: "k < 2" by simp
  from find_date_col_Some [OF assms(1)] have "k < length cols" "cols ! k = d" by simp_all
  with k have "take 2 cols ! k = d" "k < length (take 2 cols)" by simp_all
  then have "d \<in> set (take 2 cols)" using nth_mem by blast
  with assms(2) show False by simp
qed

lemma locate_date_column_props:
  assumes "locate_date_column d h0 rows0 = (idx, h, rows)"
  shows "idx < length h" and "find_date_col d h 0 = Some idx"
    and "length rows = length rows0"
  using assms find_date_col_Some [of d h0 0]
  by (auto simp add: locate_date_column_def find_date_col_None find_date_col_append
        split: option.splits)

lemma locate_date_column_ge2:
  assumes "locate_date_column d h0 rows0 = (idx, h, rows)"
    and "2 \<le> length h0" and "d \<notin> set (take 2 h0)"
  shows "2 \<le> idx"
  using assms find_date_col_ge2 [of d h0]
  by (auto simp add: locate_date_column_def split: option.splits)

lemma add_new_employees_Inr:
  "add_new_employees h idx e2r fe st emps rows bound = Inr R \<Longrightarrow>
     R = rows @ map (new_employee_row h idx fe st) (filter (is_new e2r) emps)"
proof (induction emps arbitrary: rows bound)
  case Nil
  then show ?case by simp
next
  case (Cons e es)
  show ?case
  proof (cases "is_new e2r e")
    case True
    with Cons.prems have
      "add_new_employees h idx e2r fe st es (rows @ [new_employee_row h idx fe st e])
         (bound \<or> (2 \<le> idx \<and> idx < length h)) = Inr R"
      by (simp add: is_new_def Let_def split: if_splits)
    from Cons.IH [OF this] True show ?thesis by simp
  next
    case False
    with Cons.prems have "add_new_employees h idx e2r fe st es rows bound = Inr R"
      by (auto simp add: is_new_def)
    from Cons.IH [OF this] False show ?thesis by simp
  qed
qed

lemma add_new_employees_returns:
  "bound \<or> (2 \<le> idx \<and> idx < length h) \<Longrightarrow>
     add_new_employees h idx e2r fe st emps rows bound =
       Inr (rows @ map (new_employee_row h idx fe st) (filter (is_new e2r) emps))"
  by (induction emps arbitrary: rows bound) (auto simp add: is_new_def Let_def)

lemma add_new_employees_none_new:
  "\<forall>e\<in>set emps. \<not> is_new e2r e \<Longrightarrow>
     add_new_employees h idx e2r fe st emps rows bound = Inr rows"
  by (induction emps arbitrary: rows bound) (auto simp add: is_new_def Let_def)

lemma add_new_employees_unbound:
  "\<not> bound \<Longrightarrow> \<not> (2 \<le> idx \<and> idx < length h) \<Longrightarrow>
     add_new_employees h idx e2r fe st emps rows bound = Inr R \<Longrightarrow> R = rows"
  by (induction emps arbitrary: rows) (auto simp add: is_new_def Let_def split: if_splits)

lemma dom_build_email_to_row:
  "dom (build_email_to_row rows i m) = dom m \<union> {k. \<exists>row\<in>set rows. row_key row = Some k}"
  by (induction rows arbitrary: i m) (auto simp add: row_key_def Let_def split: if_splits)

lemma build_webwork_employees_other:
  "k \<notin> (\<lambda>e. normalize_email (email e)) ` set emps \<Longrightarrow> build_webwork_employees emps m k = m k"
  by (induction emps arbitrary: m) auto

lemma build_webwork_employees_member:
  "k \<in> (\<lambda>e. normalize_email (email e)) ` set emps \<Longrightarrow>
     \<exists>emp\<in>set emps. build_webwork_employees emps m k = Some emp \<and> normalize_email (email emp) = k"
proof (induction emps arbitrary: m)
  case Nil
  then show ?case by simp
next
  case (Cons e es)
  show ?case
  proof (cases "k \<in> (\<lambda>e. normalize_email (email e)) ` set es")
    case True
    from Cons.IH [OF True] show ?thesis by auto
  next
    case False
    with Cons.prems have "k = normalize_email (email e)" by auto
    with False show ?thesis by (simp add: build_webwork_employees_other)
  qed
qed

lemma length_pad_row: "length (pad_row n r) = max n (length r)"
  by (simp add: pad_row_def)

lemma nth_pad_row: "j < length r \<Longrightarrow> pad_row n r ! j = r ! j"
  by (simp add: pad_row_def nth_append)

lemma pad_row_id: "n \<le> length r \<Longrightarrow> pad_row n r = r"
  by (simp add: pad_row_def)

lemma update_existing_row_no_key:
  "row_key r = None \<Longrightarrow> update_existing_row h idx ww fe st r = (r, False)"
  by (auto simp add: update_existing_row_def row_key_def Let_def split: if_splits)

lemma update_existing_row_key:
  assumes "row_key r = Some k"
  shows "update_existing_row h idx ww fe st r =
           (case ww k of
              Some emp \<Rightarrow> (((pad_row (length h) r)[0 := name emp])[idx := sheet_status fe st k], True)
            | None \<Rightarrow> ((pad_row (length h) r)[idx := ''Absent''], False))"
  using assms
  by (auto simp add: update_existing_row_def row_key_def Let_def split: if_splits option.splits)

lemma length_update_existing_row:
  "length (fst (update_existing_row h idx ww fe st r)) =
     (if row_key r = None then length r else max (length h) (length r))"
proof (cases "row_key r")
  case None
  then show ?thesis by (simp add: update_existing_row_no_key)
next
  case (Some k)
  then show ?thesis
    by (simp add: update_existing_row_key length_pad_row split: option.splits)
qed

lemma length_update_existing_row_ge:
  "length r \<le> length (fst (update_existing_row h idx ww fe st r))"
  by (simp add: length_update_existing_row)

lemma length_update_existing_row_rect:
  "length r = length h \<Longrightarrow> length (fst (update_existing_row h idx ww fe st r)) = length h"
  by (simp add: length_update_existing_row)

lemma nth_update_existing_row:
  assumes "j < length r" and "j \<noteq> 0" and "j \<noteq> idx"
  shows "fst (update_existing_row h idx ww fe st r) ! j = r ! j"
proof (cases "row_key r")
  case None
  then show ?thesis by (simp add: update_existing_row_no_key)
next
  case (Some k)
  with assms show ?thesis
    by (simp add: update_existing_row_key nth_pad_row split: option.splits)
qed

lemma row_key_update_existing_row:
  assumes "2 \<le> idx"
  shows "row_key (fst (update_existing_row h idx ww fe st r)) = row_key r"
proof (cases "row_key r")
  case None
  then show ?thesis by (simp add: update_existing_row_no_key)
next
  case (Some k)
  then have l: "1 < length r" by (simp add: row_key_def split: if_splits)
  have n: "fst (update_existing_row h idx ww fe st r) ! 1 = r ! 1"
    using l assms by (intro nth_update_existing_row) simp_all
  have "1 < length (fst (update_existing_row h idx ww fe st r))"
    using l length_update_existing_row_ge [of r h idx ww fe st] by simp
  with n l show ?thesis by (simp add: row_key_def)
qed

lemma update_existing_row_absent:
  assumes "row_key r = Some k" and "ww k = None" and "idx < length h"
  shows "fst (update_existing_row h idx ww fe st r) ! idx = ''Absent''"
  using assms by (simp add: update_existing_row_key length_pad_row)

lemma list_update_twice: "(xs[i := a, j := b])[i := a, j := b] = xs[i := a, j := b]"
proof (rule nth_equalityI)
  show "length (xs[i := a, j := b, i := a, j := b]) = length (xs[i := a, j := b])" by simp
next
  fix k assume "k < length (xs[i := a, j := b, i := a, j := b])"
  then have k: "k < length xs" by simp
  show "xs[i := a, j := b, i := a, j := b] ! k = xs[i := a, j := b] ! k"
    using k by (cases "k = j"; cases "k = i") simp_all
qed

lemma update_existing_row_idem:
  assumes "2 \<le> idx"
  shows "fst (update_existing_row h idx ww fe st (fst (update_existing_row h idx ww fe st r)))
           = fst (update_existing_row h idx ww fe st r)"
proof (cases "row_key r")
  case None
  then show ?thesis by (simp add: update_existing_row_no_key)
next
  case (Some k)
  let ?r' = "fst (update_existing_row h idx ww fe st r)"
  have key: "row_key ?r' = Some k"
    using Some row_key_update_existing_row [OF assms] by simp
  have len: "length h \<le> length ?r'"
    using Some by (simp add: length_update_existing_row)
  have pad: "pad_row (length h) ?r' = ?r'"
    using len by (rule pad_row_id)
  show ?thesis
  proof (cases "ww k")
    case None
    have r': "?r' = (pad_row (length h) r)[idx := ''Absent'']"
      using Some None by (simp add: update_existing_row_key)
    have "fst (update_existing_row h idx ww fe st ?r') = ?r'[idx := ''Absent'']"
      using key None pad by (simp add: update_existing_row_key)
    also have "\<dots> = ?r'" by (subst (1 2) r') simp
    finally show ?thesis .
  next
    case (Some emp)
    let ?s = "sheet_status fe st k"
    have r': "?r' = ((pad_row (length h) r)[0 := name emp])[idx := ?s]"
      using \<open>row_key r = Some k\<close> Some by (simp add: update_existing_row_key)
    have "fst (update_existing_row h idx ww fe st ?r') = (?r'[0 := name emp])[idx := ?s]"
      using key Some pad by (simp add: update_existing_row_key)
    also have "\<dots> = ?r'"
      by (subst (1 2) r') (rule list_update_twice)
    finally show ?thesis .
  qed
qed

lemma length_new_employee_row:
  "length (new_employee_row h idx fe st e) = 2 + (length h - 2)"
  by (simp add: new_employee_row_def)

lemma new_employee_row_nth_idx:
  assumes "2 \<le> idx" and "idx < length h"
  shows "new_employee_row h idx fe st e ! idx = sheet_status fe st (normalize_email (email e))"
proof -
  from assms have i: "idx - 2 < length [2..<length h]" by simp
  have "new_employee_row h idx fe st e ! idx =
          map (\<lambda>i. if i = idx then sheet_status fe st (normalize_email (email e)) else [])
            [2..<length h] ! (idx - 2)"
    using assms by (simp add: new_employee_row_def nth_append nth_Cons')
  also have "\<dots> = sheet_status fe st (normalize_email (email e))"
  proof -
    from assms have "2 + (idx - 2) < length h" by simp
    then have "[2..<length h] ! (idx - 2) = 2 + (idx - 2)" by (rule nth_upt)
    also from assms have "\<dots> = idx" by simp
    finally have "[2..<length h] ! (idx - 2) = idx" .
    with i show ?thesis by (simp del: length_upt)
  qed
  finally show ?thesis .
qed

lemma row_key_new_employee_row:
  "email e \<noteq> [] \<Longrightarrow>
     row_key (new_employee_row h idx fe st e) = Some (normalize_email (email e))"
  by (simp add: row_key_def new_employee_row_def)

lemma update_existing_row_new_employee_row:
  assumes "2 \<le> idx" and "idx < length h" and "email e \<noteq> []"
    and "ww (normalize_email (email e)) = Some e'" and "name e' = name e"
  shows "fst (update_existing_row h idx ww fe st (new_employee_row h idx fe st e))
           = new_employee_row h idx fe st e"
proof -
  let ?n = "new_employee_row h idx fe st e"
  have len: "length ?n = length h"
    using assms(1,2) by (simp add: length_new_employee_row)
  have n0: "?n ! 0 = name e" by (simp add: new_employee_row_def)
  have "fst (update_existing_row h idx ww fe st ?n) =
          (?n[0 := name e])[idx := sheet_status fe st (normalize_email (email e))]"
    using row_key_new_employee_row [OF assms(3)] assms(4,5) len
    by (simp add: update_existing_row_key pad_row_id)
  also have "\<dots> = ?n"
    using n0 new_employee_row_nth_idx [OF assms(1,2), of fe st e]
    by (metis list_update_id)
  finally show ?thesis .
qed

lemma row_key_pad_row: "row_key (pad_row n r) = row_key r"
proof (cases "1 < length r")
  case True
  then show ?thesis by (simp add: row_key_def pad_row_def nth_append)
next
  case False
  then have "row_key r = None" by (simp add: row_key_def)
  moreover have "row_key (pad_row n r) = None"
  proof (cases "1 < length (pad_row n r)")
    case True
    with False have "pad_row n r ! 1 = []"
      by (simp add: pad_row_def nth_append)
    then show ?thesis by (simp add: row_key_def)
  next
    case False
    then show ?thesis by (simp add: row_key_def)
  qed
  ultimately show ?thesis by simp
qed

lemma reconcile_rows_Inr:
  assumes "reconcile_rows h idx rows emps fe st = Inr T"
  shows "T = h # map (\<lambda>r. fst (update_existing_row h idx (build_webwork_employees emps Map.empty) fe st r)) rows
               @ map (new_employee_row h idx fe st)
                   (filter (is_new (build_email_to_row rows 1 Map.empty)) emps)"
proof -
  from assms obtain R where
    a: "add_new_employees h idx (build_email_to_row rows 1 Map.empty) fe st emps
          (map fst (map (update_existing_row h idx (build_webwork_employees emps Map.empty) fe st) rows))
          (list_ex snd (map (update_existing_row h idx (build_webwork_employees emps Map.empty) fe st) rows))
        = Inr R" and T: "T = h # R"
    by (auto simp add: reconcile_rows_def Let_def split: sum.splits)
  from add_new_employees_Inr [OF a] T show ?thesis by (simp add: comp_def)
qed

lemma reconcile_rows_returns:
  assumes "2 \<le> idx" and "idx < length h"
  shows "\<exists>T. reconcile_rows h idx rows emps fe st = Inr T"
  using assms by (simp add: reconcile_rows_def Let_def add_new_employees_returns)

lemma reconcile_rows_idem:
  assumes idx: "2 \<le> idx" "idx < length h"
    and ne: "\<forall>e\<in>set emps. email e \<noteq> []"
    and nm: "\<forall>e1\<in>set emps. \<forall>e2\<in>set emps.
               normalize_email (email e1) = normalize_email (email e2) \<longrightarrow> name e1 = name e2"
    and run: "reconcile_rows h idx rows emps fe st = Inr (h # X)"
  shows "reconcile_rows h idx X emps fe st = Inr (h # X)"
proof -
  let ?ww = "build_webwork_employees emps Map.empty"
  let ?U = "\<lambda>r. fst (update_existing_row h idx ?ww fe st r)"
  let ?e2r = "build_email_to_row rows 1 Map.empty"
  let ?e2r' = "build_email_to_row X 1 Map.empty"
  let ?N = "map (new_employee_row h idx fe st) (filter (is_new ?e2r) emps)"
  have X: "X = map ?U rows @ ?N"
    using reconcile_rows_Inr [OF run] by simp
  have none_new: "\<forall>e\<in>set emps. \<not> is_new ?e2r' e"
  proof
    fix e assume e: "e \<in> set emps"
    let ?k = "normalize_email (email e)"
    have "\<exists>row\<in>set X. row_key row = Some ?k"
    proof (cases "is_new ?e2r e")
      case True
      with e have "new_employee_row h idx fe st e \<in> set X" by (simp add: X)
      moreover from ne e have "row_key (new_employee_row h idx fe st e) = Some ?k"
        by (simp add: row_key_new_employee_row)
      ultimately show ?thesis by blast
    next
      case False
      then have "?k \<in> dom ?e2r" by (auto simp add: is_new_def)
      then obtain row where row: "row \<in> set rows" "row_key row = Some ?k"
        by (auto simp add: dom_build_email_to_row)
      then have "?U row \<in> set X" by (simp add: X)
      moreover from row idx(1) have "row_key (?U row) = Some ?k"
        by (simp add: row_key_update_existing_row)
      ultimately show ?thesis by blast
    qed
    then have "?k \<in> dom ?e2r'" by (simp add: dom_build_email_to_row)
    then show "\<not> is_new ?e2r' e" by (auto simp add: is_new_def)
  qed
  have fix_old: "?U (?U r) = ?U r" for r
    using idx(1) by (rule update_existing_row_idem)
  have fix_new: "?U (new_employee_row h idx fe st e) = new_employee_row h idx fe st e"
    if "e \<in> set emps" for e
  proof -
    from that have "normalize_email (email e) \<in> (\<lambda>e. normalize_email (email e)) ` set emps"
      by blast
    from build_webwork_employees_member [OF this, of Map.empty]
    obtain e' where e': "e' \<in> set emps" "?ww (normalize_email (email e)) = Some e'"
      "normalize_email (email e') = normalize_email (email e)" by blast
    with nm that have n: "name e' = name e" by blast
    from ne that have "email e \<noteq> []" by blast
    with idx show ?thesis
      using e'(2) n by (rule update_existing_row_new_employee_row)
  qed
  have fixed: "map ?U X = X"
    unfolding X by (simp add: fix_old fix_new map_idI)
  have "reconcile_rows h idx X emps fe st = Inr (h # map ?U X)"
    using none_new by (simp add: reconcile_rows_def Let_def add_new_employees_none_new comp_def)
  with fixed show ?thesis by simp
qed

text \<open>
  C4 (as amended). On a sheet that already has a header of at least two columns with the date
  not among the first two, for a roster whose emails are non-empty and whose members with the
  same normalised email carry the same name, the merge returns, and merging the same day again
  into its result returns the same table: no date column and no row is added the second time.
\<close>

theorem merge_idempotent_on_initialised_sheet:
  assumes "existing_data = header_row # rows"
    and "2 \<le> length header_row"
    and "date_str \<notin> set (take 2 header_row)"
    and "\<forall>e\<in>set employees. email e \<noteq> []"
    and "\<forall>e1\<in>set employees. \<forall>e2\<in>set employees.
           normalize_email (email e1) = normalize_email (email e2) \<longrightarrow> name e1 = name e2"
  shows "\<exists>T. update_department_sheet existing_data date_str employees first_entries start_dt = Inr T \<and>
             update_department_sheet T date_str employees first_entries start_dt = Inr T"
proof -
  obtain idx h R where loc: "locate_date_column date_str header_row rows = (idx, h, R)"
    using prod_cases3 by blast
  have idx: "2 \<le> idx" "idx < length h"
    using locate_date_column_ge2 [OF loc assms(2,3)] locate_date_column_props(1) [OF loc]
    by simp_all
  have found: "find_date_col date_str h 0 = Some idx"
    by (rule locate_date_column_props(2) [OF loc])
  obtain T where T: "reconcile_rows h idx R employees first_entries start_dt = Inr T"
    using reconcile_rows_returns [OF idx] by blast
  then obtain X where X: "T = h # X"
    using reconcile_rows_Inr [OF T] by blast
  have first: "update_department_sheet existing_data date_str employees first_entries start_dt = Inr T"
    using assms(1) loc T by (simp add: update_department_sheet_def)
  have loc2: "locate_date_column date_str h X = (idx, h, X)"
    using found by (simp add: locate_date_column_def)
  have "reconcile_rows h idx X employees first_entries start_dt = Inr (h # X)"
    using idx assms(4,5) T [unfolded X] by (rule reconcile_rows_idem)
  then have second: "update_department_sheet T date_str employees first_entries start_dt = Inr T"
    using X loc2 by (simp add: update_department_sheet_def)
  from first second show ?thesis by blast
qed

lemma locate_date_column_rows:
  assumes "locate_date_column d h0 rows0 = (idx, h, R)" and "n < length rows0"
  shows "length (rows0 ! n) \<le> length (R ! n)"
    and "\<forall>j<length (rows0 ! n). R ! n ! j = rows0 ! n ! j"
    and "row_key (R ! n) = row_key (rows0 ! n)"
  using assms
  by (auto simp add: locate_date_column_def length_pad_row nth_pad_row row_key_pad_row
        split: option.splits)

lemma locate_date_column_rect:
  assumes "locate_date_column d h0 rows0 = (idx, h, R)"
    and "\<forall>r\<in>set rows0. length r = length h0"
  shows "\<forall>r\<in>set R. length r = length h"
  using assms
  by (auto simp add: locate_date_column_def length_pad_row split: option.splits)

lemma reconcile_rows_rect:
  assumes rect: "\<forall>r\<in>set R. length r = length h"
    and run: "reconcile_rows h idx R emps fe st = Inr T"
  shows "rectangular T"
proof -
  let ?ww = "build_webwork_employees emps Map.empty"
  let ?U = "update_existing_row h idx ?ww fe st"
  let ?e2r = "build_email_to_row R 1 Map.empty"
  let ?new = "filter (is_new ?e2r) emps"
  have T: "T = h # map (\<lambda>r. fst (?U r)) R @ map (new_employee_row h idx fe st) ?new"
    by (rule reconcile_rows_Inr [OF run])
  have old: "\<forall>r\<in>set (map (\<lambda>r. fst (?U r)) R). length r = length h"
    using rect by (auto simp add: length_update_existing_row_rect)
  have new: "\<forall>r\<in>set (map (new_employee_row h idx fe st) ?new). length r = length h"
  proof (cases "2 \<le> length h")
    case True
    then show ?thesis by (auto simp add: length_new_employee_row)
  next
    case False
    then have short: "\<forall>r\<in>set R. row_key r = None"
      using rect by (simp add: row_key_def)
    then have unbound: "\<not> list_ex snd (map ?U R)"
      by (simp add: list_ex_iff update_existing_row_no_key)
    from run obtain X where
      a: "add_new_employees h idx ?e2r fe st emps (map fst (map ?U R)) (list_ex snd (map ?U R)) = Inr X"
      by (auto simp add: reconcile_rows_def Let_def split: sum.splits)
    from False have "\<not> (2 \<le> idx \<and> idx < length h)" by simp
    from add_new_employees_unbound [OF unbound this a] add_new_employees_Inr [OF a]
    have "?new = []" by simp
    then show ?thesis by simp
  qed
  from old new show ?thesis by (auto simp add: T rectangular_def)
qed

lemma update_department_sheet_returns:
  assumes "initialised existing_data date_str"
  shows "\<exists>T. update_department_sheet existing_data date_str emps fe st = Inr T"
proof (cases existing_data)
  case Nil
  then show ?thesis by (simp add: update_department_sheet_def)
next
  case (Cons h0 rows0)
  obtain idx h R where loc: "locate_date_column date_str h0 rows0 = (idx, h, R)"
    using prod_cases3 by blast
  from assms Cons have "2 \<le> length h0" "date_str \<notin> set (take 2 h0)"
    by (simp_all add: initialised_def)
  from locate_date_column_ge2 [OF loc this] locate_date_column_props(1) [OF loc]
  have "\<exists>T. reconcile_rows h idx R emps fe st = Inr T"
    by (intro reconcile_rows_returns)
  with Cons loc show ?thesis by (simp add: update_department_sheet_def)
qed

text \<open>
  C5. The table that \<^verbatim>\<open>get_all_values\<close> reads has every row padded to the length of the
  header. For such a table, every row of the worksheet after the merge (rows that were there,
  rows padded for a new date column and appended rows) has exactly as many cells as the
  header; the merge completes whenever the sheet is empty or has its two identity columns in
  front of the date columns.
\<close>

theorem merge_preserves_rectangular:
  assumes "rectangular existing_data"
  shows "rectangular (worksheet_after existing_data date_str employees first_entries start_dt) \<and>
         (initialised existing_data date_str \<longrightarrow>
            (\<exists>T. update_department_sheet existing_data date_str employees first_entries start_dt = Inr T))"
proof -
  let ?run = "update_department_sheet existing_data date_str employees first_entries start_dt"
  have "rectangular T" if run: "?run = Inr T" for T
  proof (cases existing_data)
    case Nil
    with run show ?thesis by (auto simp add: update_department_sheet_def rectangular_def)
  next
    case (Cons h0 rows0)
    obtain idx h R where loc: "locate_date_column date_str h0 rows0 = (idx, h, R)"
      using prod_cases3 by blast
    from assms Cons have "\<forall>r\<in>set rows0. length r = length h0" by (simp add: rectangular_def)
    from locate_date_column_rect [OF loc this] have rect: "\<forall>r\<in>set R. length r = length h" .
    from run Cons loc have "reconcile_rows h idx R employees first_entries start_dt = Inr T"
      by (simp add: update_department_sheet_def)
    from reconcile_rows_rect [OF rect this] show ?thesis .
  qed
  then have "rectangular (worksheet_after existing_data date_str employees first_entries start_dt)"
    using assms by (simp add: worksheet_after_def split: sum.splits)
  then show ?thesis
    using update_department_sheet_returns by blast
qed

lemma rows_kept_after_merge:
  assumes "update_department_sheet existing_data date_str employees first_entries start_dt = Inr T"
  shows "length existing_data \<le> length T \<and>
         (\<forall>i. 0 < i \<and> i < length existing_data \<longrightarrow>
            length (existing_data ! i) \<le> length (T ! i) \<and>
            (\<forall>j. 0 < j \<and> j < length (existing_data ! i) \<and>
                 find_date_col date_str (T ! 0) 0 \<noteq> Some j \<longrightarrow>
                 T ! i ! j = existing_data ! i ! j)) \<and>
         (\<forall>i. 0 < i \<and> i < length existing_data \<and>
              1 < length (existing_data ! i) \<and> existing_data ! i ! 1 \<noteq> [] \<and>
              normalize_email (existing_data ! i ! 1)
                \<notin> (\<lambda>e. normalize_email (email e)) ` set employees \<longrightarrow>
              (\<exists>idx. find_date_col date_str (T ! 0) 0 = Some idx \<and> T ! i ! idx = ''Absent''))"
proof (cases existing_data)
  case Nil
  then show ?thesis by simp
next
  case (Cons h0 rows0)
  obtain idx h R where loc: "locate_date_column date_str h0 rows0 = (idx, h, R)"
    using prod_cases3 by blast
  let ?ww = "build_webwork_employees employees Map.empty"
  let ?U = "\<lambda>r. fst (update_existing_row h idx ?ww first_entries start_dt r)"
  let ?N = "map (new_employee_row h idx first_entries start_dt)
              (filter (is_new (build_email_to_row R 1 Map.empty)) employees)"
  from assms Cons loc have "reconcile_rows h idx R employees first_entries start_dt = Inr T"
    by (simp add: update_department_sheet_def)
  from reconcile_rows_Inr [OF this] have T: "T = h # map ?U R @ ?N" .
  have lenR: "length R = length rows0" by (rule locate_date_column_props(3) [OF loc])
  have found: "find_date_col date_str h 0 = Some idx" by (rule locate_date_column_props(2) [OF loc])
  have idx: "idx < length h" by (rule locate_date_column_props(1) [OF loc])
  have len: "length existing_data \<le> length T" by (simp add: Cons T lenR)
  have T0: "T ! 0 = h" by (simp add: T)
  have row: "T ! Suc n = ?U (R ! n)" "existing_data ! Suc n = rows0 ! n" if "n < length rows0" for n
    using that by (simp_all add: T Cons lenR nth_append)
  have kept: "length (existing_data ! Suc n) \<le> length (T ! Suc n) \<and>
            (\<forall>j. 0 < j \<and> j < length (existing_data ! Suc n) \<and>
                 find_date_col date_str (T ! 0) 0 \<noteq> Some j \<longrightarrow>
                 T ! Suc n ! j = existing_data ! Suc n ! j)" if n: "n < length rows0" for n
  proof -
    note l = locate_date_column_rows [OF loc n]
    have a: "length (rows0 ! n) \<le> length (?U (R ! n))"
      using l(1) length_update_existing_row_ge [of "R ! n" h idx ?ww first_entries start_dt]
      by simp
    have b: "?U (R ! n) ! j = rows0 ! n ! j" if "0 < j" "j < length (rows0 ! n)" "j \<noteq> idx" for j
    proof -
      from that l(1) have "j < length (R ! n)" by simp
      with that have "?U (R ! n) ! j = R ! n ! j" by (intro nth_update_existing_row) simp_all
      with l(2) that show ?thesis by simp
    qed
    from a b show ?thesis by (auto simp add: row [OF n] T0 found)
  qed
  have marked: "\<exists>idx. find_date_col date_str (T ! 0) 0 = Some idx \<and> T ! Suc n ! idx = ''Absent''"
    if n: "n < length rows0" and k: "1 < length (rows0 ! n)" "rows0 ! n ! 1 \<noteq> []"
      and out: "normalize_email (rows0 ! n ! 1) \<notin> (\<lambda>e. normalize_email (email e)) ` set employees"
    for n
  proof -
    from k have "row_key (rows0 ! n) = Some (normalize_email (rows0 ! n ! 1))"
      by (simp add: row_key_def)
    then have key: "row_key (R ! n) = Some (normalize_email (rows0 ! n ! 1))"
      using locate_date_column_rows(3) [OF loc n] by simp
    from out have "?ww (normalize_email (rows0 ! n ! 1)) = None"
      by (simp add: build_webwork_employees_other)
    with key idx have "?U (R ! n) ! idx = ''Absent''"
      by (simp add: update_existing_row_absent)
    then show ?thesis by (simp add: row(1) [OF n] T0 found)
  qed
  have all_kept: "\<forall>i. 0 < i \<and> i < length existing_data \<longrightarrow>
            length (existing_data ! i) \<le> length (T ! i) \<and>
            (\<forall>j. 0 < j \<and> j < length (existing_data ! i) \<and>
                 find_date_col date_str (T ! 0) 0 \<noteq> Some j \<longrightarrow>
                 T ! i ! j = existing_data ! i ! j)"
  proof (intro allI impI)
    fix i assume i: "0 < i \<and> i < length existing_data"
    then obtain n where "i = Suc n" "n < length rows0"
      by (cases i) (simp_all add: Cons)
    with kept [of n] show "length (existing_data ! i) \<le> length (T ! i) \<and>
            (\<forall>j. 0 < j \<and> j < length (existing_data ! i) \<and>
                 find_date_col date_str (T ! 0) 0 \<noteq> Some j \<longrightarrow>
                 T ! i ! j = existing_data ! i ! j)" by simp
  qed
  have all_marked: "\<forall>i. 0 < i \<and> i < length existing_data \<and>
              1 < length (existing_data ! i) \<and> existing_data ! i ! 1 \<noteq> [] \<and>
              normalize_email (existing_data ! i ! 1)
                \<notin> (\<lambda>e. normalize_email (email e)) ` set employees \<longrightarrow>
              (\<exists>idx. find_date_col date_str (T ! 0) 0 = Some idx \<and> T ! i ! idx = ''Absent'')"
  proof (intro allI impI)
    fix i assume i: "0 < i \<and> i < length existing_data \<and>
              1 < length (existing_data ! i) \<and> existing_data ! i ! 1 \<noteq> [] \<and>
              normalize_email (existing_data ! i ! 1)
                \<notin> (\<lambda>e. normalize_email (email e)) ` set employees"
    then obtain n where n: "i = Suc n" "n < length rows0"
      by (cases i) (simp_all add: Cons)
    with i row(2) [OF n(2)] have "1 < length (rows0 ! n)" "rows0 ! n ! 1 \<noteq> []"
      "normalize_email (rows0 ! n ! 1) \<notin> (\<lambda>e. normalize_email (email e)) ` set employees"
      by simp_all
    from marked [OF n(2) this] n(1)
    show "\<exists>idx. find_date_col date_str (T ! 0) 0 = Some idx \<and> T ! i ! idx = ''Absent''" by simp
  qed
  from len all_kept all_marked show ?thesis by blast
qed


text \<open>
  C6. A merge never removes a row: the table written has at least as many rows, every existing
  row keeps its position and every cell other than the name cell and this date's cell, and a
  row with an email that matches no roster member gets this date's cell set to Absent. A merge
  that raises writes nothing, and a merge on an empty sheet or on a sheet with its two
  identity columns in front completes.
\<close>

theorem rows_never_removed:
  "(\<forall>T. update_department_sheet existing_data date_str employees first_entries start_dt = Inr T \<longrightarrow>
      length existing_data \<le> length T \<and>
      (\<forall>i. 0 < i \<and> i < length existing_data \<longrightarrow>
         length (existing_data ! i) \<le> length (T ! i) \<and>
         (\<forall>j. 0 < j \<and> j < length (existing_data ! i) \<and>
              find_date_col date_str (T ! 0) 0 \<noteq> Some j \<longrightarrow>
              T ! i ! j = existing_data ! i ! j)) \<and>
      (\<forall>i. 0 < i \<and> i < length existing_data \<and>
           1 < length (existing_data ! i) \<and> existing_data ! i ! 1 \<noteq> [] \<and>
           normalize_email (existing_data ! i ! 1)
             \<notin> (\<lambda>e. normalize_email (email e)) ` set employees \<longrightarrow>
           (\<exists>idx. find_date_col date_str (T ! 0) 0 = Some idx \<and> T ! i ! idx = ''Absent''))) \<and>
   (\<forall>err. update_department_sheet existing_data date_str employees first_entries start_dt = Inl err \<longrightarrow>
      worksheet_after existing_data date_str employees first_entries start_dt = existing_data) \<and>
   (initialised existing_data date_str \<longrightarrow>
      (\<exists>T. update_department_sheet existing_data date_str employees first_entries start_dt = Inr T))"
proof -
  have a: "\<forall>err. update_department_sheet existing_data date_str employees first_entries start_dt = Inl err \<longrightarrow>
      worksheet_after existing_data date_str employees first_entries start_dt = existing_data"
    by (simp add: worksheet_after_def)
  have b: "initialised existing_data date_str \<longrightarrow>
      (\<exists>T. update_department_sheet existing_data date_str employees first_entries start_dt = Inr T)"
    using update_department_sheet_returns by blast
  have c: "\<forall>T. update_department_sheet existing_data date_str employees first_entries start_dt = Inr T \<longrightarrow>
      length existing_data \<le> length T \<and>
      (\<forall>i. 0 < i \<and> i < length existing_data \<longrightarrow>
         length (existing_data ! i) \<le> length (T ! i) \<and>
         (\<forall>j. 0 < j \<and> j < length (existing_data ! i) \<and>
              find_date_col date_str (T ! 0) 0 \<noteq> Some j \<longrightarrow>
              T ! i ! j = existing_data ! i ! j)) \<and>
      (\<forall>i. 0 < i \<and> i < length existing_data \<and>
           1 < length (existing_data ! i) \<and> existing_data ! i ! 1 \<noteq> [] \<and>
           normalize_email (existing_data ! i ! 1)
             \<notin> (\<lambda>e. normalize_email (email e)) ` set employees \<longrightarrow>
           (\<exists>idx. find_date_col date_str (T ! 0) 0 = Some idx \<and> T ! i ! idx = ''Absent''))"
    by (intro allI impI) (rule rows_kept_after_merge)
  show ?thesis
    by (rule conjI [OF c conjI [OF a b]])
qed

text \<open>
  C4 as stated fails on the empty sheet: the first merge writes the Name and Email columns
  only, and merging the same day again adds the date column and the statuses.
\<close>

theorem first_merge_of_empty_sheet_counterexample:
  "update_department_sheet [] ''2024-01-02'' [\<lparr>name = ''Al'', email = ''al@x''\<rparr>]
       [''al@x'' \<mapsto> 32400] 32400
     = Inr [[''Name'', ''Email''], [''Al'', ''al@x'']] \<and>
   update_department_sheet [[''Name'', ''Email''], [''Al'', ''al@x'']] ''2024-01-02''
       [\<lparr>name = ''Al'', email = ''al@x''\<rparr>] [''al@x'' \<mapsto> 32400] 32400
     = Inr [[''Name'', ''Email'', ''2024-01-02''], [''Al'', ''al@x'', ''Present'']]"
  by code_simp

theorem merge_idempotent_on_initialised_sheet_witness:
  "update_department_sheet [[''Name'', ''Email'', ''2024-01-01''], [''carol'', ''Carol@x '', ''Late'']]
       ''2024-01-02''
       [\<lparr>name = ''Carol'', email = ''carol@x''\<rparr>, \<lparr>name = ''Dave'', email = ''Dave@x''\<rparr>]
       [''carol@x'' \<mapsto> 32400] 32400
     = Inr [[''Name'', ''Email'', ''2024-01-01'', ''2024-01-02''],
            [''Carol'', ''Carol@x '', ''Late'', ''Present''],
            [''Dave'', ''Dave@x'', [], ''Absent'']] \<and>
   update_department_sheet [[''Name'', ''Email'', ''2024-01-01'', ''2024-01-02''],
            [''Carol'', ''Carol@x '', ''Late'', ''Present''],
            [''Dave'', ''Dave@x'', [], ''Absent'']]
       ''2024-01-02''
       [\<lparr>name = ''Carol'', email = ''carol@x''\<rparr>, \<lparr>name = ''Dave'', email = ''Dave@x''\<rparr>]
       [''carol@x'' \<mapsto> 32400] 32400
     = Inr [[''Name'', ''Email'', ''2024-01-01'', ''2024-01-02''],
            [''Carol'', ''Carol@x '', ''Late'', ''Present''],
            [''Dave'', ''Dave@x'', [], ''Absent'']]"
proof -
  let ?S = "[[''Name'', ''Email'', ''2024-01-01''], [''carol'', ''Carol@x '', ''Late'']]"
  let ?emps = "[\<lparr>name = ''Carol'', email = ''carol@x''\<rparr>, \<lparr>name = ''Dave'', email = ''Dave@x''\<rparr>]"
  let ?fe = "[''carol@x'' \<mapsto> (32400 :: int)]"
  have e: "update_department_sheet ?S ''2024-01-02'' ?emps ?fe 32400
     = Inr [[''Name'', ''Email'', ''2024-01-01'', ''2024-01-02''],
            [''Carol'', ''Carol@x '', ''Late'', ''Present''],
            [''Dave'', ''Dave@x'', [], ''Absent'']]"
    by code_simp
  have h1: "?S = [''Name'', ''Email'', ''2024-01-01''] # [[''carol'', ''Carol@x '', ''Late'']]" by simp
  have h2: "2 \<le> length [''Name'', ''Email'', ''2024-01-01'']" by simp
  have h3: "''2024-01-02'' \<notin> set (take 2 [''Name'', ''Email'', ''2024-01-01''])"
    by (simp add: numeral_2_eq_2)
  have h4: "\<forall>e\<in>set ?emps. email e \<noteq> []" by simp
  have n1: "normalize_email ''carol@x'' = ''carol@x''" by code_simp
  have n2: "normalize_email ''Dave@x'' = ''dave@x''" by code_simp
  have h5: "\<forall>e1\<in>set ?emps. \<forall>e2\<in>set ?emps.
           normalize_email (email e1) = normalize_email (email e2) \<longrightarrow> name e1 = name e2"
    by (simp add: n1 n2)
  from merge_idempotent_on_initialised_sheet [OF h1 h2 h3 h4 h5, of ?fe 32400]
  show ?thesis by (simp add: e)
qed

theorem merge_preserves_rectangular_witness:
  "rectangular (worksheet_after [[''Name'', ''Email'', ''2024-01-01''], [''carol'', ''Carol@x '', ''Late'']]
       ''2024-01-02''
       [\<lparr>name = ''Carol'', email = ''carol@x''\<rparr>, \<lparr>name = ''Dave'', email = ''Dave@x''\<rparr>]
       [''carol@x'' \<mapsto> 32400] 32400) \<and>
   (\<exists>T. update_department_sheet [[''Name'', ''Email'', ''2024-01-01''], [''carol'', ''Carol@x '', ''Late'']]
       ''2024-01-02''
       [\<lparr>name = ''Carol'', email = ''carol@x''\<rparr>, \<lparr>name = ''Dave'', email = ''Dave@x''\<rparr>]
       [''carol@x'' \<mapsto> 32400] 32400 = Inr T)"
proof -
  have r: "rectangular [[''Name'', ''Email'', ''2024-01-01''], [''carol'', ''Carol@x '', ''Late'']]"
    by (simp add: rectangular_def)
  have i: "initialised [[''Name'', ''Email'', ''2024-01-01''], [''carol'', ''Carol@x '', ''Late'']] ''2024-01-02''"
    by (simp add: initialised_def numeral_2_eq_2)
  from merge_preserves_rectangular [OF r] i show ?thesis by blast
qed


theorem rows_never_removed_witness:
  "update_department_sheet
       [[''Name'', ''Email'', ''2024-01-01''], [''Erin'', ''erin@x'', ''Late''], [''Al'', ''al@x'', ''Present'']]
       ''2024-01-02'' [\<lparr>name = ''Al'', email = ''al@x''\<rparr>] [''al@x'' \<mapsto> 32400] 32400
     = Inr [[''Name'', ''Email'', ''2024-01-01'', ''2024-01-02''],
            [''Erin'', ''erin@x'', ''Late'', ''Absent''],
            [''Al'', ''al@x'', ''Present'', ''Present'']] \<and>
   (\<exists>idx. find_date_col ''2024-01-02'' [''Name'', ''Email'', ''2024-01-01'', ''2024-01-02''] 0 = Some idx \<and>
          [''Erin'', ''erin@x'', ''Late'', ''Absent''] ! idx = ''Absent'')"
proof -
  let ?S = "[[''Name'', ''Email'', ''2024-01-01''], [''Erin'', ''erin@x'', ''Late''], [''Al'', ''al@x'', ''Present'']]"
  let ?T = "[[''Name'', ''Email'', ''2024-01-01'', ''2024-01-02''],
            [''Erin'', ''erin@x'', ''Late'', ''Absent''],
            [''Al'', ''al@x'', ''Present'', ''Present'']]"
  let ?emps = "[\<lparr>name = ''Al'', email = ''al@x''\<rparr>]"
  let ?fe = "[''al@x'' \<mapsto> (32400 :: int)]"
  have e: "update_department_sheet ?S ''2024-01-02'' ?emps ?fe 32400 = Inr ?T"
    by code_simp
  have n1: "normalize_email ''erin@x'' = ''erin@x''" by code_simp
  have n2: "normalize_email ''al@x'' = ''al@x''" by code_simp
  have h: "0 < (1::nat) \<and> 1 < length ?S \<and> 1 < length (?S ! 1) \<and> ?S ! 1 ! 1 \<noteq> [] \<and>
           normalize_email (?S ! 1 ! 1) \<notin> (\<lambda>e. normalize_email (email e)) ` set ?emps"
    by (simp add: n1 n2)
  from rows_never_removed [of ?S "''2024-01-02''" ?emps ?fe 32400] e
  have "\<forall>i. 0 < i \<and> i < length ?S \<and> 1 < length (?S ! i) \<and> ?S ! i ! 1 \<noteq> [] \<and>
           normalize_email (?S ! i ! 1) \<notin> (\<lambda>e. normalize_email (email e)) ` set ?emps \<longrightarrow>
           (\<exists>idx. find_date_col ''2024-01-02'' (?T ! 0) 0 = Some idx \<and> ?T ! i ! idx = ''Absent'')"
    by blast
  with h have "\<exists>idx. find_date_col ''2024-01-02'' (?T ! 0) 0 = Some idx \<and> ?T ! 1 ! idx = ''Absent''"
    by blast
  with e show ?thesis by simp
qed

section \<open>The report tables\<close>

lemma length_widen: "length (widen ws cells) = length ws"
  by (induction ws cells rule: widen.induct) simp_all

lemma length_widen_all: "length (widen_all ws rows) = length ws"
  by (induction rows arbitrary: ws) (simp_all add: length_widen)

lemma ljust_cells_Inr:
  "length cells \<le> length ws \<Longrightarrow>
     \<exists>r. ljust_cells ws cells = Inr r \<and> length r = length cells \<and>
         (\<forall>i<length cells. r ! i = ljust (ws ! i) (cells ! i))"
proof (induction ws cells rule: ljust_cells.induct)
  case (1 ws)
  show ?case by simp
next
  case (2 c cs)
  then show ?case by simp
next
  case (3 w ws c cs)
  then obtain r where r: "ljust_cells ws cs = Inr r" "length r = length cs"
    "\<forall>i<length cs. r ! i = ljust (ws ! i) (cs ! i)" by auto
  have "\<forall>i<length (c # cs). (ljust w c # r) ! i = ljust ((w # ws) ! i) ((c # cs) ! i)"
    using r(3) by (auto simp add: nth_Cons')
  with r(1,2) show ?case by simp
qed

lemma ljust_cells_Inl:
  "length ws < length cells \<Longrightarrow> ljust_cells ws cells = Inl IndexError"
  by (induction ws cells rule: ljust_cells.induct) simp_all

lemma render_rows_Inr:
  "\<forall>row\<in>set rows. length row \<le> length ws \<Longrightarrow>
     \<exists>lines. render_rows ws rows = Inr lines \<and> length lines = length rows \<and>
         (\<forall>k<length rows. \<exists>cells. lines ! k = join '' | '' cells \<and>
              length cells = length (rows ! k) \<and>
              (\<forall>i<length (rows ! k). cells ! i = ljust (ws ! i) (rows ! k ! i)))"
proof (induction rows)
  case Nil
  show ?case by simp
next
  case (Cons row rows)
  from Cons.prems have "length row \<le> length ws" by simp
  from ljust_cells_Inr [OF this] obtain cells where c: "ljust_cells ws row = Inr cells"
    "length cells = length row" "\<forall>i<length row. cells ! i = ljust (ws ! i) (row ! i)" by blast
  from Cons obtain lines where l: "render_rows ws rows = Inr lines" "length lines = length rows"
    "\<forall>k<length rows. \<exists>cells. lines ! k = join '' | '' cells \<and>
              length cells = length (rows ! k) \<and>
              (\<forall>i<length (rows ! k). cells ! i = ljust (ws ! i) (rows ! k ! i))" by auto
  have "\<exists>cells'. (join '' | '' cells # lines) ! k = join '' | '' cells' \<and>
              length cells' = length ((row # rows) ! k) \<and>
              (\<forall>i<length ((row # rows) ! k). cells' ! i = ljust (ws ! i) ((row # rows) ! k ! i))"
    if "k < length (row # rows)" for k
  proof (cases k)
    case 0
    with c show ?thesis by auto
  next
    case (Suc n)
    with that l(3) show ?thesis by simp
  qed
  with c(1) l(1,2) show ?case by simp
qed

lemma render_table_Inr:
  assumes "length headers = length ws" and "\<forall>row\<in>set rows. length row \<le> length ws"
  shows "\<exists>hs ds body_lines.
           render_table ws headers rows = Inr (code_block (join '' | '' hs # join ''-|-'' ds # body_lines)) \<and>
           render_rows ws rows = Inr body_lines"
proof -
  from assms(1) have "length headers \<le> length ws" by simp
  from ljust_cells_Inr [OF this] obtain hs where "ljust_cells ws headers = Inr hs" by blast
  moreover from assms(1) have "dashes ws (length headers) = Inr (map (\<lambda>w. replicate w CHR ''-'') (take (length headers) ws))"
    by (simp add: dashes_def)
  moreover from render_rows_Inr [OF assms(2)] obtain body_lines where
    "render_rows ws rows = Inr body_lines" by blast
  ultimately show ?thesis by (simp add: render_table_def) blast
qed

lemma length_normalize_row: "length (normalize_row n row) = n"
  by (simp add: normalize_row_def)

lemma nth_normalize_row:
  "i < n \<Longrightarrow> normalize_row n row ! i = (if i < length row then str (row ! i) else [])"
  by (simp add: normalize_row_def)

lemma widen_strict_Inr:
  "length cells \<le> length ws \<Longrightarrow> \<exists>ws'. widen_strict ws cells = Inr ws' \<and> length ws' = length ws"
  by (induction ws cells rule: widen_strict.induct) auto

lemma widen_strict_Inl:
  "length ws < length cells \<Longrightarrow> widen_strict ws cells = Inl IndexError"
  by (induction ws cells rule: widen_strict.induct) simp_all

lemma widen_all_strict_Inr:
  "\<forall>row\<in>set rows. length row \<le> length ws \<Longrightarrow>
     \<exists>ws'. widen_all_strict ws rows = Inr ws' \<and> length ws' = length ws"
proof (induction rows arbitrary: ws)
  case Nil
  show ?case by simp
next
  case (Cons row rows)
  from Cons.prems have "length row \<le> length ws" by simp
  from widen_strict_Inr [OF this] obtain ws1 where w: "widen_strict ws row = Inr ws1"
    "length ws1 = length ws" by blast
  with Cons.prems have "\<forall>row\<in>set rows. length row \<le> length ws1" by simp
  from Cons.IH [OF this] w show ?case by simp
qed

lemma widen_all_strict_Inl:
  "\<exists>row\<in>set rows. length ws < length row \<Longrightarrow> widen_all_strict ws rows = Inl IndexError"
proof (induction rows arbitrary: ws)
  case Nil
  then show ?case by simp
next
  case (Cons row rows)
  show ?case
  proof (cases "length ws < length row")
    case True
    then show ?thesis by (simp add: widen_strict_Inl)
  next
    case False
    then have "length row \<le> length ws" by simp
    from widen_strict_Inr [OF this] obtain ws1 where w: "widen_strict ws row = Inr ws1"
      "length ws1 = length ws" by blast
    from Cons.prems False have "\<exists>row\<in>set rows. length ws1 < length row" by (simp add: w(2))
    from Cons.IH [OF this] w(1) show ?thesis by simp
  qed
qed

text \<open>
  C9. For every header list and every list of rows, of any lengths,
  \<^verbatim>\<open>_build_ascii_table\<close> completes its try block without an exception (the fallback message
  is never produced), and for rows that are not empty every body line of the table is the join
  of exactly as many cells as the header has, cell i being the row's cell i or the empty
  string where the row has none, left-justified to the column width. The nested
  \<^verbatim>\<open>build_table\<close> of the tracker is called with rows built to the header's length only; for
  those it returns, and every body line has as many cells as the header.
\<close>

theorem ascii_table_normalises_rows:
  "(\<exists>table. build_ascii_table_body headers rows = Inr table) \<and>
   (rows \<noteq> [] \<longrightarrow>
      (\<exists>col_widths hs ds body_lines.
         build_ascii_table headers rows
           = code_block (join '' | '' hs # join ''-|-'' ds # body_lines) \<and>
         length body_lines = length rows \<and>
         (\<forall>k<length rows. \<exists>cells.
            body_lines ! k = join '' | '' cells \<and> length cells = length headers \<and>
            (\<forall>i<length headers.
               cells ! i = ljust (col_widths ! i)
                             (if i < length (format_row (rows ! k))
                              then str (format_row (rows ! k) ! i) else []))))) \<and>
   ((\<forall>row\<in>set list_rows. length row = length headers) \<longrightarrow>
      (\<exists>hs ds body_lines.
         build_table headers list_rows
           = Inr (code_block (join '' | '' hs # join ''-|-'' ds # body_lines)) \<and>
         length body_lines = length list_rows \<and>
         (\<forall>k<length list_rows. \<exists>cells.
            body_lines ! k = join '' | '' cells \<and> length cells = length headers)))"
proof -
  let ?n = "length headers"
  let ?norm = "map (normalize_row ?n) (map format_row rows)"
  let ?ws = "widen_all (map length headers) ?norm"
  have lw: "length headers = length ?ws" by (simp add: length_widen_all)
  have fit: "\<forall>row\<in>set ?norm. length row \<le> length ?ws"
    by (auto simp add: length_widen_all length_normalize_row)
  from render_table_Inr [OF lw fit] obtain hs ds body_lines where
    t: "render_table ?ws headers ?norm = Inr (code_block (join '' | '' hs # join ''-|-'' ds # body_lines))"
    and b: "render_rows ?ws ?norm = Inr body_lines" by blast
  have body: "rows \<noteq> [] \<Longrightarrow> build_ascii_table_body headers rows
                 = Inr (code_block (join '' | '' hs # join ''-|-'' ds # body_lines))"
    using t by (simp add: build_ascii_table_body_def Let_def)
  have A: "\<exists>table. build_ascii_table_body headers rows = Inr table"
  proof (cases "rows = []")
    case True
    then show ?thesis by (simp add: build_ascii_table_body_def)
  next
    case False
    with body show ?thesis by simp
  qed
  from render_rows_Inr [OF fit] b have lines:
    "length body_lines = length ?norm"
    "\<forall>k<length ?norm. \<exists>cells. body_lines ! k = join '' | '' cells \<and>
              length cells = length (?norm ! k) \<and>
              (\<forall>i<length (?norm ! k). cells ! i = ljust (?ws ! i) (?norm ! k ! i))"
    by auto
  have cells: "\<exists>cells. body_lines ! k = join '' | '' cells \<and> length cells = ?n \<and>
            (\<forall>i<?n. cells ! i = ljust (?ws ! i)
                             (if i < length (format_row (rows ! k))
                              then str (format_row (rows ! k) ! i) else []))"
    if k: "k < length rows" for k
  proof -
    from k have nk: "?norm ! k = normalize_row ?n (format_row (rows ! k))" by simp
    from lines(2) k obtain cells where c: "body_lines ! k = join '' | '' cells"
      "length cells = length (?norm ! k)"
      "\<forall>i<length (?norm ! k). cells ! i = ljust (?ws ! i) (?norm ! k ! i)" by auto
    from c(2) have "length cells = ?n" unfolding nk by (simp only: length_normalize_row)
    moreover from c(3) have "\<forall>i<?n. cells ! i = ljust (?ws ! i)
                             (if i < length (format_row (rows ! k))
                              then str (format_row (rows ! k) ! i) else [])"
      unfolding nk by (simp only: length_normalize_row) (simp add: nth_normalize_row)
    ultimately show ?thesis using c(1) by blast
  qed
  have B: "rows \<noteq> [] \<longrightarrow>
      (\<exists>col_widths hs ds body_lines.
         build_ascii_table headers rows
           = code_block (join '' | '' hs # join ''-|-'' ds # body_lines) \<and>
         length body_lines = length rows \<and>
         (\<forall>k<length rows. \<exists>cells.
            body_lines ! k = join '' | '' cells \<and> length cells = length headers \<and>
            (\<forall>i<length headers.
               cells ! i = ljust (col_widths ! i)
                             (if i < length (format_row (rows ! k))
                              then str (format_row (rows ! k) ! i) else []))))"
  proof
    assume ne: "rows \<noteq> []"
    have "build_ascii_table headers rows
            = code_block (join '' | '' hs # join ''-|-'' ds # body_lines)"
      using ne body by (simp add: build_ascii_table_def)
    moreover have "length body_lines = length rows" using lines(1) by simp
    ultimately show "\<exists>col_widths hs ds body_lines.
         build_ascii_table headers rows
           = code_block (join '' | '' hs # join ''-|-'' ds # body_lines) \<and>
         length body_lines = length rows \<and>
         (\<forall>k<length rows. \<exists>cells.
            body_lines ! k = join '' | '' cells \<and> length cells = length headers \<and>
            (\<forall>i<length headers.
               cells ! i = ljust (col_widths ! i)
                             (if i < length (format_row (rows ! k))
                              then str (format_row (rows ! k) ! i) else [])))"
      using cells by blast
  qed
  have D: "(\<forall>row\<in>set list_rows. length row = length headers) \<longrightarrow>
      (\<exists>hs ds body_lines.
         build_table headers list_rows
           = Inr (code_block (join '' | '' hs # join ''-|-'' ds # body_lines)) \<and>
         length body_lines = length list_rows \<and>
         (\<forall>k<length list_rows. \<exists>cells.
            body_lines ! k = join '' | '' cells \<and> length cells = length headers))"
  proof
    assume eq: "\<forall>row\<in>set list_rows. length row = length headers"
    let ?rs = "map (map str) list_rows"
    from eq have f: "\<forall>row\<in>set ?rs. length row \<le> length (map length headers)"
      by simp
    from widen_all_strict_Inr [OF f] obtain ws where
      w: "widen_all_strict (map length headers) ?rs = Inr ws"
      "length ws = length (map length headers)" by blast
    from w(2) have hl: "length headers = length ws" by simp
    from f w(2) have fit': "\<forall>row\<in>set ?rs. length row \<le> length ws" by simp
    from render_table_Inr [OF hl fit'] obtain hs' ds' lines' where
      t': "render_table ws headers ?rs
             = Inr (code_block (join '' | '' hs' # join ''-|-'' ds' # lines'))"
      and b': "render_rows ws ?rs = Inr lines'" by blast
    from render_rows_Inr [OF fit'] b' have l':
      "length lines' = length ?rs"
      "\<forall>k<length ?rs. \<exists>cells. lines' ! k = join '' | '' cells \<and>
              length cells = length (?rs ! k) \<and>
              (\<forall>i<length (?rs ! k). cells ! i = ljust (ws ! i) (?rs ! k ! i))"
      by auto
    have "\<exists>cells. lines' ! k = join '' | '' cells \<and> length cells = length headers"
      if k: "k < length list_rows" for k
    proof -
      from k have kk: "k < length ?rs" by simp
      from l'(2) kk obtain cells where c: "lines' ! k = join '' | '' cells"
        "length cells = length (?rs ! k)" by blast
      from k eq have "length (?rs ! k) = length headers" by simp
      with c(2) have "length cells = length headers" by (simp only:)
      with c(1) show ?thesis by blast
    qed
    moreover have "build_table headers list_rows
           = Inr (code_block (join '' | '' hs' # join ''-|-'' ds' # lines'))"
      using w(1) t' by (simp add: build_table_def)
    moreover have "length lines' = length list_rows" using l'(1) by simp
    ultimately show "\<exists>hs ds body_lines.
         build_table headers list_rows
           = Inr (code_block (join '' | '' hs # join ''-|-'' ds # body_lines)) \<and>
         length body_lines = length list_rows \<and>
         (\<forall>k<length list_rows. \<exists>cells.
            body_lines ! k = join '' | '' cells \<and> length cells = length headers)"
      by blast
  qed
  from A B D show ?thesis by blast
qed

theorem ascii_table_normalises_rows_witness:
  "build_ascii_table [''Name'', ''Email'', ''Time'']
       [DictRow [(''name'', S ''Al''), (''email'', S ''al@x''), (''arrival_time'', S ''09:05 AM''),
                 (''minutes_late'', I 5)],
        DictRow [(''name'', S ''Bo''), (''email'', S ''bo@x'')]]
     = code_block [''Name | Email | Time    '', ''-----|-------|---------'',
                   ''Al   | al@x  | 09:05 AM'', ''Bo   | bo@x  |         ''] \<and>
   (\<exists>hs ds body_lines.
      build_table [''Name'', ''Email''] [[S ''Al'', S ''al@x'']]
        = Inr (code_block (join '' | '' hs # join ''-|-'' ds # body_lines)) \<and>
      length body_lines = 1)"
proof -
  have e: "build_ascii_table [''Name'', ''Email'', ''Time'']
       [DictRow [(''name'', S ''Al''), (''email'', S ''al@x''), (''arrival_time'', S ''09:05 AM''),
                 (''minutes_late'', I 5)],
        DictRow [(''name'', S ''Bo''), (''email'', S ''bo@x'')]]
     = code_block [''Name | Email | Time    '', ''-----|-------|---------'',
                   ''Al   | al@x  | 09:05 AM'', ''Bo   | bo@x  |         '']"
    by code_simp
  have h: "\<forall>row\<in>set [[S ''Al'', S ''al@x'']]. length row = length [''Name'', ''Email'']"
    by simp
  from ascii_table_normalises_rows [of "[''Name'', ''Email'']" "[]" "[[S ''Al'', S ''al@x'']]"] h
  have "\<exists>hs ds body_lines.
      build_table [''Name'', ''Email''] [[S ''Al'', S ''al@x'']]
        = Inr (code_block (join '' | '' hs # join ''-|-'' ds # body_lines)) \<and>
      length body_lines = length [[S ''Al'', S ''al@x'']]"
    by blast
  with e show ?thesis by simp
qed

end
